theory Spec2Isabelle
  imports Complex_Main
begin

section \<open>The training engine of pytorch\_helper\_modules (engine.py)\<close>

text \<open>
  The engine drives three collaborators it does not define: a model, an optimizer and an
  optional learning-rate scheduler. Their objects live in one world record that every
  function takes and returns; their behaviour is a record of functions. Losses, logits and
  accuracies are real numbers. The softmax of the tensor library is one of the functions
  of that record, as its result is rounded: nothing is assumed of it.
\<close>

subsection \<open>Errors, devices, events\<close>

text \<open>
  \<open>ZeroDivisionError\<close> is what Python raises for \<open>a / 0\<close> on numbers, \<open>IndexError\<close>
  what \<open>torch.argmax\<close> raises when the reduced dimension is empty. \<open>EmptyBatchSource\<close> is
  the name the design document gives to an empty batch sequence; no statement of engine.py
  raises it.
\<close>

datatype error = ZeroDivisionError | IndexError | EmptyBatchSource

type_synonym device = string

datatype mode = Training | Evaluation

datatype loader_name = Trainloader | Testloader

text \<open>Every call the engine makes on a collaborator, and every line it prints, in order.\<close>

datatype event =
    ModelTo device
  | Iterate loader_name
  | BatchTo device
  | ModelTrain
  | ModelEval
  | Forward
  | LossFn
  | ZeroGrad
  | Backward
  | OptimizerStep
  | SchedulerStep
  | Accuracy
  | Accumulate
  | Print nat real real real real

subsection \<open>The world: model, optimizer, scheduler\<close>

record ('p, 'g, 'o, 's) world =
  params :: 'p
  grads :: 'g
  optimizer :: 'o
  scheduler :: 's
  training :: mode
  model_device :: device
  trace :: "event list"

text \<open>
  \<open>forward\<close> is \<open>model(x)\<close>: one row of class scores for each input of the batch; a row may
  depend on the whole batch and on the mode. \<open>loss_fn\<close> is the loss of a batch of rows
  against its labels. \<open>backward\<close> is \<open>loss.backward()\<close>, which adds the gradient of that loss
  to the stored gradients; \<open>zero_grad\<close> and \<open>opt_step\<close> are the optimizer's methods.
  \<open>softmax\<close> is \<open>torch.softmax\<close> on one row of scores, as the library computes it in
  floating point.
\<close>

record ('p, 'g, 'o, 'x) torch =
  forward :: "mode \<Rightarrow> 'p \<Rightarrow> 'x list \<Rightarrow> 'x \<Rightarrow> real list"
  loss_fn :: "real list list \<Rightarrow> int list \<Rightarrow> real"
  backward :: "'p \<Rightarrow> 'x list \<Rightarrow> int list \<Rightarrow> 'g \<Rightarrow> 'g"
  zero_grad :: "'g \<Rightarrow> 'g"
  opt_step :: "'o \<Rightarrow> 'g \<Rightarrow> 'p \<Rightarrow> 'o \<times> 'p"
  softmax :: "real list \<Rightarrow> real list"

text \<open>
  A batch is \<open>(x, y)\<close> with \<open>x\<close> and \<open>y\<close> index-aligned: a list of (input, label) pairs.
  A loader is the list of batches one pass over it yields; \<open>len(loader)\<close> is its length.
\<close>

type_synonym 'x batch = "('x \<times> int) list"

definition emit :: "event \<Rightarrow> ('p, 'g, 'o, 's) world \<Rightarrow> ('p, 'g, 'o, 's) world" where
  "emit e w = w\<lparr>trace := trace w @ [e]\<rparr>"

subsection \<open>Tensor operations used by the metric\<close>

text \<open>Python's true division \<open>a / n\<close> by an integer count.\<close>

definition truediv :: "real \<Rightarrow> nat \<Rightarrow> error + real" where
  "truediv a n = (if n = 0 then Inl ZeroDivisionError else Inr (a / real n))"

text \<open>
  \<open>torch.argmax(t, dim=1)\<close>: for every row the index of its first maximal entry; an empty
  row has none and raises.
\<close>

fun argmax_from :: "real \<Rightarrow> nat \<Rightarrow> nat \<Rightarrow> real list \<Rightarrow> nat" where
  "argmax_from best bi i [] = bi"
| "argmax_from best bi i (v # vs) =
     (if best < v then argmax_from v i (Suc i) vs else argmax_from best bi (Suc i) vs)"

fun argmax_row :: "real list \<Rightarrow> error + nat" where
  "argmax_row [] = Inl IndexError"
| "argmax_row (v # vs) = Inr (argmax_from v 0 1 vs)"

fun argmax_dim1 :: "real list list \<Rightarrow> error + nat list" where
  "argmax_dim1 [] = Inr []"
| "argmax_dim1 (r # rs) =
     (case argmax_row r of
        Inl e \<Rightarrow> Inl e
      | Inr k \<Rightarrow> (case argmax_dim1 rs of Inl e \<Rightarrow> Inl e | Inr ks \<Rightarrow> Inr (k # ks)))"

text \<open>\<open>torch.eq(y, y_pred).sum().item()\<close>: the number of positions where both agree.\<close>

definition eq_sum :: "int list \<Rightarrow> nat list \<Rightarrow> nat" where
  "eq_sum y y_pred = length (filter (\<lambda>(a, k). a = int k) (zip y y_pred))"

text \<open>
  Lines 50-51 and 90-91: the predicted classes, \<open>torch.softmax(y_logits, dim=1)\<close> being
  the library's softmax on every row, and the accuracy of one batch.
\<close>

definition predict :: "('p, 'g, 'o, 'x) torch \<Rightarrow> real list list \<Rightarrow> error + nat list" where
  "predict T y_logits = argmax_dim1 (map (softmax T) y_logits)"

definition batch_acc ::
  "('p, 'g, 'o, 'x) torch \<Rightarrow> real list list \<Rightarrow> int list \<Rightarrow> error + real" where
  "batch_acc T y_logits y =
     (case predict T y_logits of
        Inl e \<Rightarrow> Inl e
      | Inr y_pred \<Rightarrow> truediv (real (eq_sum y y_pred)) (length y))"

subsection \<open>The calls on the collaborators\<close>

text \<open>
  Each call changes the world and leaves its event. \<open>model.to(device)\<close>, \<open>model.train()\<close>
  and \<open>model.eval()\<close> set the device and the mode of the model and no parameter.
  \<open>model(x)\<close> reads the mode and the parameters. \<open>optimizer.zero_grad()\<close> clears the stored
  gradients, \<open>loss.backward()\<close> adds to them, \<open>optimizer.step()\<close> reads them and changes the
  optimizer and the parameters, and \<open>schedular.step()\<close> changes the scheduler and the
  learning rate held by the optimizer.
\<close>

definition model_to :: "device \<Rightarrow> ('p, 'g, 'o, 's) world \<Rightarrow> ('p, 'g, 'o, 's) world" where
  "model_to dev w = emit (ModelTo dev) (w\<lparr>model_device := dev\<rparr>)"

definition model_train :: "('p, 'g, 'o, 's) world \<Rightarrow> ('p, 'g, 'o, 's) world" where
  "model_train w = emit ModelTrain (w\<lparr>training := Training\<rparr>)"

definition model_eval :: "('p, 'g, 'o, 's) world \<Rightarrow> ('p, 'g, 'o, 's) world" where
  "model_eval w = emit ModelEval (w\<lparr>training := Evaluation\<rparr>)"

definition model_call ::
  "('p, 'g, 'o, 'x) torch \<Rightarrow> 'x list \<Rightarrow> ('p, 'g, 'o, 's) world \<Rightarrow> real list list" where
  "model_call T x w = map (forward T (training w) (params w) x) x"

definition optimizer_zero_grad ::
  "('p, 'g, 'o, 'x) torch \<Rightarrow> ('p, 'g, 'o, 's) world \<Rightarrow> ('p, 'g, 'o, 's) world" where
  "optimizer_zero_grad T w = emit ZeroGrad (w\<lparr>grads := zero_grad T (grads w)\<rparr>)"

definition loss_backward ::
  "('p, 'g, 'o, 'x) torch \<Rightarrow> 'x list \<Rightarrow> int list \<Rightarrow> ('p, 'g, 'o, 's) world \<Rightarrow>
   ('p, 'g, 'o, 's) world" where
  "loss_backward T x y w = emit Backward (w\<lparr>grads := backward T (params w) x y (grads w)\<rparr>)"

definition optimizer_step ::
  "('p, 'g, 'o, 'x) torch \<Rightarrow> ('p, 'g, 'o, 's) world \<Rightarrow> ('p, 'g, 'o, 's) world" where
  "optimizer_step T w =
     emit OptimizerStep
       (w\<lparr>optimizer := fst (opt_step T (optimizer w) (grads w) (params w)),
          params := snd (opt_step T (optimizer w) (grads w) (params w))\<rparr>)"

definition schedular_step ::
  "('s \<Rightarrow> 'o \<Rightarrow> 's \<times> 'o) \<Rightarrow> ('p, 'g, 'o, 's) world \<Rightarrow> ('p, 'g, 'o, 's) world" where
  "schedular_step step w =
     emit SchedulerStep
       (w\<lparr>scheduler := fst (step (scheduler w) (optimizer w)),
          optimizer := snd (step (scheduler w) (optimizer w))\<rparr>)"

subsection \<open>train\_step\<close>

text \<open>
  The body of the loop of \<open>train_step\<close> (lines 39-54) on one batch. The scheduler argument
  is \<open>None\<close> or the scheduler's \<open>step\<close> method. The result is the batch's loss and accuracy,
  or the error raised; the world is returned in both cases, as the calls made before a
  raise have happened.
\<close>

definition train_batch ::
  "('p, 'g, 'o, 'x) torch \<Rightarrow> ('s \<Rightarrow> 'o \<Rightarrow> 's \<times> 'o) option \<Rightarrow> device \<Rightarrow> 'x batch \<Rightarrow>
   ('p, 'g, 'o, 's) world \<Rightarrow> (error + real \<times> real) \<times> ('p, 'g, 'o, 's) world" where
  "train_batch T schedular dev b w0 =
     (let x = map fst b;
          y = map snd b;
          w1 = model_train (emit (BatchTo dev) w0);
          y_logits = model_call T x w1;
          loss = loss_fn T y_logits y;
          w2 = emit LossFn (emit Forward w1);
          w3 = optimizer_step T (loss_backward T x y (optimizer_zero_grad T w2));
          w4 = (case schedular of None \<Rightarrow> w3 | Some step \<Rightarrow> schedular_step step w3);
          w5 = emit Accuracy w4
      in case batch_acc T y_logits y of
           Inl e \<Rightarrow> (Inl e, w5)
         | Inr acc \<Rightarrow> (Inr (loss, acc), emit Accumulate w5))"

text \<open>The loop itself, with the two running totals \<open>train_loss\<close> and \<open>train_acc\<close>.\<close>

fun train_loop ::
  "('p, 'g, 'o, 'x) torch \<Rightarrow> ('s \<Rightarrow> 'o \<Rightarrow> 's \<times> 'o) option \<Rightarrow> device \<Rightarrow> 'x batch list \<Rightarrow>
   real \<Rightarrow> real \<Rightarrow> ('p, 'g, 'o, 's) world \<Rightarrow> (error + real \<times> real) \<times> ('p, 'g, 'o, 's) world" where
  "train_loop T schedular dev [] loss_sum acc_sum w = (Inr (loss_sum, acc_sum), w)"
| "train_loop T schedular dev (b # bs) loss_sum acc_sum w =
     (case fst (train_batch T schedular dev b w) of
        Inl e \<Rightarrow> (Inl e, snd (train_batch T schedular dev b w))
      | Inr la \<Rightarrow>
          train_loop T schedular dev bs (loss_sum + fst la) (acc_sum + snd la)
            (snd (train_batch T schedular dev b w)))"

text \<open>Lines 56-57: both totals are divided by \<open>len(trainloader)\<close>.\<close>

definition average :: "real \<times> real \<Rightarrow> nat \<Rightarrow> error + real \<times> real" where
  "average totals n =
     (case truediv (fst totals) n of
        Inl e \<Rightarrow> Inl e
      | Inr mean_loss \<Rightarrow>
          (case truediv (snd totals) n of
             Inl e \<Rightarrow> Inl e
           | Inr mean_acc \<Rightarrow> Inr (mean_loss, mean_acc)))"

definition train_step ::
  "('p, 'g, 'o, 'x) torch \<Rightarrow> ('s \<Rightarrow> 'o \<Rightarrow> 's \<times> 'o) option \<Rightarrow> device \<Rightarrow> 'x batch list \<Rightarrow>
   ('p, 'g, 'o, 's) world \<Rightarrow> (error + real \<times> real) \<times> ('p, 'g, 'o, 's) world" where
  "train_step T schedular dev trainloader w =
     (let r = train_loop T schedular dev trainloader 0 0
                (emit (Iterate Trainloader) (model_to dev w))
      in case fst r of
           Inl e \<Rightarrow> (Inl e, snd r)
         | Inr totals \<Rightarrow> (average totals (length trainloader), snd r))"

subsection \<open>test\_step\<close>

text \<open>
  The loop body of \<open>test_step\<close> (lines 84-94): the model is put in evaluation mode, and
  inside \<open>torch.inference_mode()\<close> only the forward pass, the loss and the accuracy are
  computed.
\<close>

definition test_batch ::
  "('p, 'g, 'o, 'x) torch \<Rightarrow> device \<Rightarrow> 'x batch \<Rightarrow>
   ('p, 'g, 'o, 's) world \<Rightarrow> (error + real \<times> real) \<times> ('p, 'g, 'o, 's) world" where
  "test_batch T dev b w0 =
     (let x = map fst b;
          y = map snd b;
          w1 = model_eval (emit (BatchTo dev) w0);
          y_logits = model_call T x w1;
          loss = loss_fn T y_logits y;
          w2 = emit Accuracy (emit LossFn (emit Forward w1))
      in case batch_acc T y_logits y of
           Inl e \<Rightarrow> (Inl e, w2)
         | Inr acc \<Rightarrow> (Inr (loss, acc), emit Accumulate w2))"

fun test_loop ::
  "('p, 'g, 'o, 'x) torch \<Rightarrow> device \<Rightarrow> 'x batch list \<Rightarrow>
   real \<Rightarrow> real \<Rightarrow> ('p, 'g, 'o, 's) world \<Rightarrow> (error + real \<times> real) \<times> ('p, 'g, 'o, 's) world" where
  "test_loop T dev [] loss_sum acc_sum w = (Inr (loss_sum, acc_sum), w)"
| "test_loop T dev (b # bs) loss_sum acc_sum w =
     (case fst (test_batch T dev b w) of
        Inl e \<Rightarrow> (Inl e, snd (test_batch T dev b w))
      | Inr la \<Rightarrow>
          test_loop T dev bs (loss_sum + fst la) (acc_sum + snd la)
            (snd (test_batch T dev b w)))"

definition test_step ::
  "('p, 'g, 'o, 'x) torch \<Rightarrow> device \<Rightarrow> 'x batch list \<Rightarrow>
   ('p, 'g, 'o, 's) world \<Rightarrow> (error + real \<times> real) \<times> ('p, 'g, 'o, 's) world" where
  "test_step T dev testloader w =
     (let r = test_loop T dev testloader 0 0
                (emit (Iterate Testloader) (model_to dev w))
      in case fst r of
           Inl e \<Rightarrow> (Inl e, snd r)
         | Inr totals \<Rightarrow> (average totals (length testloader), snd r))"

subsection \<open>train\<close>

record result =
  train_loss :: "real list"
  train_acc :: "real list"
  test_loss :: "real list"
  test_acc :: "real list"

text \<open>
  One round of the loop of \<open>train\<close> (lines 147-163). The call of \<open>train_step\<close> on lines
  147-151 passes no scheduler, so \<open>train_step\<close> runs with its default \<open>None\<close>. The line
  printed carries the 1-based epoch number, then train loss, test loss, train accuracy and
  test accuracy.
\<close>

definition train_epoch ::
  "('p, 'g, 'o, 'x) torch \<Rightarrow> device \<Rightarrow> 'x batch list \<Rightarrow> 'x batch list \<Rightarrow> nat \<Rightarrow>
   result \<Rightarrow> ('p, 'g, 'o, 's) world \<Rightarrow> (error + result) \<times> ('p, 'g, 'o, 's) world" where
  "train_epoch T dev trainloader testloader epoch res w =
     (let tr = train_step T None dev trainloader w
      in case fst tr of
           Inl e \<Rightarrow> (Inl e, snd tr)
         | Inr train_m \<Rightarrow>
             (let te = test_step T dev testloader (snd tr)
              in case fst te of
                   Inl e \<Rightarrow> (Inl e, snd te)
                 | Inr test_m \<Rightarrow>
                     (Inr (res\<lparr>train_loss := train_loss res @ [fst train_m],
                               train_acc := train_acc res @ [snd train_m],
                               test_loss := test_loss res @ [fst test_m],
                               test_acc := test_acc res @ [snd test_m]\<rparr>),
                      emit (Print (epoch + 1) (fst train_m) (fst test_m) (snd train_m)
                              (snd test_m))
                        (snd te))))"

text \<open>The loop over the epoch numbers of \<open>range(epochs)\<close>; it stops at the first raise.\<close>

fun train_epochs ::
  "('p, 'g, 'o, 'x) torch \<Rightarrow> device \<Rightarrow> 'x batch list \<Rightarrow> 'x batch list \<Rightarrow> nat list \<Rightarrow>
   result \<Rightarrow> ('p, 'g, 'o, 's) world \<Rightarrow> (error + result) \<times> ('p, 'g, 'o, 's) world" where
  "train_epochs T dev trainloader testloader [] res w = (Inr res, w)"
| "train_epochs T dev trainloader testloader (epoch # es) res w =
     (case fst (train_epoch T dev trainloader testloader epoch res w) of
        Inl e \<Rightarrow> (Inl e, snd (train_epoch T dev trainloader testloader epoch res w))
      | Inr res' \<Rightarrow>
          train_epochs T dev trainloader testloader es res'
            (snd (train_epoch T dev trainloader testloader epoch res w)))"

text \<open>
  \<open>train\<close> starts from the empty result and runs \<open>range(epochs)\<close>, which is empty for
  \<open>epochs \<le> 0\<close>. Its \<open>schedular\<close> parameter is not used in the body.
\<close>

definition train ::
  "('p, 'g, 'o, 'x) torch \<Rightarrow> 'x batch list \<Rightarrow> 'x batch list \<Rightarrow>
   ('s \<Rightarrow> 'o \<Rightarrow> 's \<times> 'o) option \<Rightarrow> int \<Rightarrow> device \<Rightarrow>
   ('p, 'g, 'o, 's) world \<Rightarrow> (error + result) \<times> ('p, 'g, 'o, 's) world" where
  "train T trainloader testloader schedular epochs dev w =
     train_epochs T dev trainloader testloader [0..<nat epochs]
       \<lparr>train_loss = [], train_acc = [], test_loss = [], test_acc = []\<rparr> w"

subsection \<open>Notions used to state the properties\<close>

text \<open>The events one completed round of the loop of \<open>train_step\<close> leaves in the trace.\<close>

definition train_events :: "('s \<Rightarrow> 'o \<Rightarrow> 's \<times> 'o) option \<Rightarrow> device \<Rightarrow> event list" where
  "train_events schedular dev =
     [BatchTo dev, ModelTrain, Forward, LossFn, ZeroGrad, Backward, OptimizerStep]
     @ (case schedular of None \<Rightarrow> [] | Some step \<Rightarrow> [SchedulerStep])
     @ [Accuracy, Accumulate]"

text \<open>
  The (loss, accuracy) pairs the loop body yields on the batches of one pass, in order, up
  to the first batch that raises.
\<close>

fun train_pass ::
  "('p, 'g, 'o, 'x) torch \<Rightarrow> ('s \<Rightarrow> 'o \<Rightarrow> 's \<times> 'o) option \<Rightarrow> device \<Rightarrow> 'x batch list \<Rightarrow>
   ('p, 'g, 'o, 's) world \<Rightarrow> (real \<times> real) list" where
  "train_pass T schedular dev [] w = []"
| "train_pass T schedular dev (b # bs) w =
     (case fst (train_batch T schedular dev b w) of
        Inl e \<Rightarrow> []
      | Inr la \<Rightarrow> la # train_pass T schedular dev bs (snd (train_batch T schedular dev b w)))"

fun test_pass ::
  "('p, 'g, 'o, 'x) torch \<Rightarrow> device \<Rightarrow> 'x batch list \<Rightarrow>
   ('p, 'g, 'o, 's) world \<Rightarrow> (real \<times> real) list" where
  "test_pass T dev [] w = []"
| "test_pass T dev (b # bs) w =
     (case fst (test_batch T dev b w) of
        Inl e \<Rightarrow> []
      | Inr la \<Rightarrow> la # test_pass T dev bs (snd (test_batch T dev b w)))"

text \<open>
  The batches on which the loop body of \<open>train_step\<close> ran: all of them when none raised,
  else those up to and including the first that raised.
\<close>

definition processed ::
  "('p, 'g, 'o, 'x) torch \<Rightarrow> ('s \<Rightarrow> 'o \<Rightarrow> 's \<times> 'o) option \<Rightarrow> device \<Rightarrow> 'x batch list \<Rightarrow>
   ('p, 'g, 'o, 's) world \<Rightarrow> 'x batch list" where
  "processed T schedular dev loader w =
     take (Suc (length (train_pass T schedular dev loader w))) loader"

text \<open>
  What one round of the loop of \<open>train_step\<close> computes from batch \<open>b\<close> in world \<open>w\<close>: the
  logits of the forward pass in training mode, the gradients after clearing and
  backpropagation, and the optimizer update made with these gradients (new optimizer
  state and new parameters).
\<close>

definition train_logits ::
  "('p, 'g, 'o, 'x) torch \<Rightarrow> 'x batch \<Rightarrow> ('p, 'g, 'o, 's) world \<Rightarrow> real list list" where
  "train_logits T b w = map (forward T Training (params w) (map fst b)) (map fst b)"

definition fresh_grads ::
  "('p, 'g, 'o, 'x) torch \<Rightarrow> 'x batch \<Rightarrow> ('p, 'g, 'o, 's) world \<Rightarrow> 'g" where
  "fresh_grads T b w = backward T (params w) (map fst b) (map snd b) (zero_grad T (grads w))"

definition update ::
  "('p, 'g, 'o, 'x) torch \<Rightarrow> 'x batch \<Rightarrow> ('p, 'g, 'o, 's) world \<Rightarrow> 'o \<times> 'p" where
  "update T b w = opt_step T (optimizer w) (fresh_grads T b w) (params w)"

text \<open>Two rows of equal length whose entries compare to each other in the same way.\<close>

definition same_order :: "real list \<Rightarrow> real list \<Rightarrow> bool" where
  "same_order us vs \<longleftrightarrow>
     length us = length vs \<and>
     (\<forall>i < length vs. \<forall>j < length vs. (us ! i < us ! j) = (vs ! i < vs ! j))"

subsection \<open>Two softmax functions\<close>

text \<open>The softmax of a row in exact arithmetic: \<open>exp v\<close> over the sum of all \<open>exp\<close>.\<close>

definition exact_softmax :: "real list \<Rightarrow> real list" where
  "exact_softmax r = map (\<lambda>v. exp v / sum_list (map exp r)) r"

text \<open>
  The softmax of a row in single precision, the default type of a tensor. \<open>round32\<close>
  rounds to the nearest number with a significand of 24 bits (the exponent range is not
  bounded, and a value halfway between two such numbers goes up). \<open>softmax32\<close> computes
  as the library does: the maximum of the row is subtracted, the exponentials are summed
  from the left, and every exponential is divided by the sum, each result rounded.
\<close>

definition round32 :: "real \<Rightarrow> real" where
  "round32 v =
     (if v = 0 then 0
      else of_int (round (v / 2 powr (of_int \<lfloor>log 2 \<bar>v\<bar>\<rfloor> - 23)))
           * 2 powr (of_int \<lfloor>log 2 \<bar>v\<bar>\<rfloor> - 23))"

definition softmax32 :: "real list \<Rightarrow> real list" where
  "softmax32 r =
     (if r = [] then []
      else let m = Max (set r);
               es = map (\<lambda>v. round32 (exp (v - m))) r;
               s = foldl (\<lambda>a e. round32 (a + e)) 0 es
           in map (\<lambda>e. round32 (e / s)) es)"

subsection \<open>A small instance\<close>

text \<open>
  A two-class model with one weight \<open>p\<close> and scores \<open>[0, p * x]\<close>, a loss of twice the
  batch size, gradients that count the backward passes since the last clearing, an
  optimizer that counts its steps and subtracts the gradient, a scheduler that counts
  its steps, and the exact softmax. The train loader has a batch of one and a batch of two samples, so the losses
  of its batches are 2 and 4.
\<close>

definition toy :: "(real, real, nat, real) torch" where
  "toy = \<lparr>forward = (\<lambda>m p xs x. [0, p * x]),
          loss_fn = (\<lambda>lg y. 2 * real (length y)),
          backward = (\<lambda>p x y g. g + 1),
          zero_grad = (\<lambda>g. 0),
          opt_step = (\<lambda>k g p. (Suc k, p - g)),
          softmax = exact_softmax\<rparr>"

definition toy_world :: "(real, real, nat, nat) world" where
  "toy_world = \<lparr>params = 1, grads = 0, optimizer = 0, scheduler = 0,
                training = Evaluation, model_device = ''cpu'', trace = []\<rparr>"

definition toy_hook :: "nat \<Rightarrow> nat \<Rightarrow> nat \<times> nat" where
  "toy_hook s k = (Suc s, k)"

definition toy_train :: "real batch list" where
  "toy_train = [[(1, 1)], [(1, 1), (2, 0)]]"

definition toy_test :: "real batch list" where
  "toy_test = [[(1, 0), (2, 0)]]"

section \<open>Auxiliary facts\<close>

lemma argmax_from_mono:
  assumes "\<And>a b. (f a < f b) = (a < b)"
  shows "argmax_from (f best) bi i (map f vs) = argmax_from best bi i vs"
  using assms by (induction vs arbitrary: best bi i) simp_all

lemma sum_exp_nonneg: "0 \<le> sum_list (map exp (r::real list))"
  by (induction r) simp_all

lemma sum_exp_pos: "r \<noteq> [] \<Longrightarrow> 0 < sum_list (map exp (r::real list))"
  using sum_exp_nonneg by (cases r) (simp_all add: add_pos_nonneg)

lemma argmax_from_same_order:
  assumes "length us = length vs"
    and "\<And>i. i < length vs \<Longrightarrow> (b' < us ! i) = (b < vs ! i)"
    and "\<And>i j. i < length vs \<Longrightarrow> j < length vs \<Longrightarrow> (us ! i < us ! j) = (vs ! i < vs ! j)"
  shows "argmax_from b' bi k us = argmax_from b bi k vs"
  using assms
proof (induction vs arbitrary: us b b' bi k)
  case Nil
  then show ?case by simp
next
  case (Cons v vs)
  from Cons.prems(1) obtain u us' where us: "us = u # us'" and len: "length us' = length vs"
    by (cases us) simp_all
  have head: "(b' < u) = (b < v)"
    using Cons.prems(2) [of 0] us by simp
  have tail_best: "\<And>i. i < length vs \<Longrightarrow> (b' < us' ! i) = (b < vs ! i)"
    using Cons.prems(2) [of "Suc _"] us by simp
  have tail_head: "\<And>i. i < length vs \<Longrightarrow> (u < us' ! i) = (v < vs ! i)"
    using Cons.prems(3) [of 0 "Suc _"] us by simp
  have tail: "\<And>i j. i < length vs \<Longrightarrow> j < length vs \<Longrightarrow>
      (us' ! i < us' ! j) = (vs ! i < vs ! j)"
    using Cons.prems(3) [of "Suc _" "Suc _"] us by simp
  show ?case
  proof (cases "b < v")
    case True
    with head Cons.IH [OF len tail_head tail, of k "Suc k"] us show ?thesis by simp
  next
    case False
    with head Cons.IH [OF len tail_best tail, of bi "Suc k"] us show ?thesis by simp
  qed
qed

lemma argmax_row_same_order:
  assumes "same_order us vs"
  shows "argmax_row us = argmax_row vs"
proof (cases vs)
  case Nil
  with assms show ?thesis by (simp add: same_order_def)
next
  case (Cons v vs')
  with assms obtain u us' where us: "us = u # us'" and len: "length us' = length vs'"
    by (cases us) (simp_all add: same_order_def)
  have ord: "\<And>i j. i < Suc (length vs') \<Longrightarrow> j < Suc (length vs') \<Longrightarrow>
      ((u # us') ! i < (u # us') ! j) = ((v # vs') ! i < (v # vs') ! j)"
    using assms us Cons by (simp add: same_order_def)
  have "argmax_from u 0 1 us' = argmax_from v 0 1 vs'"
  proof (rule argmax_from_same_order [OF len])
    fix i assume "i < length vs'"
    then show "(u < us' ! i) = (v < vs' ! i)"
      using ord [of 0 "Suc i"] by simp
  next
    fix i j assume "i < length vs'" "j < length vs'"
    then show "(us' ! i < us' ! j) = (vs' ! i < vs' ! j)"
      using ord [of "Suc i" "Suc j"] by simp
  qed
  with us Cons show ?thesis by simp
qed

lemma argmax_dim1_same_order:
  "(\<And>r. r \<in> set t \<Longrightarrow> same_order (f r) r) \<Longrightarrow> argmax_dim1 (map f t) = argmax_dim1 t"
proof (induction t)
  case Nil
  show ?case by simp
next
  case (Cons r rs)
  have "argmax_row (f r) = argmax_row r"
    by (rule argmax_row_same_order) (simp add: Cons.prems)
  moreover have "argmax_dim1 (map f rs) = argmax_dim1 rs"
    by (rule Cons.IH) (simp add: Cons.prems)
  ultimately show ?case by (simp split: sum.splits)
qed

lemma exact_softmax_same_order: "same_order (exact_softmax r) r"
proof (cases r)
  case Nil
  then show ?thesis by (simp add: exact_softmax_def same_order_def)
next
  case (Cons v vs)
  define S where "S = sum_list (map exp r)"
  have S: "0 < S" unfolding S_def using Cons by (intro sum_exp_pos) simp
  have mono: "\<And>a b. (exp a / S < exp b / S) = (a < b)"
    using S by (simp add: divide_less_cancel)
  have "exact_softmax r = map (\<lambda>v. exp v / S) r"
    by (simp add: exact_softmax_def S_def)
  then show ?thesis
    by (simp add: same_order_def mono)
qed

lemma predict_exact: "softmax T = exact_softmax \<Longrightarrow> predict T t = argmax_dim1 t"
  unfolding predict_def
  by (simp add: argmax_dim1_same_order exact_softmax_same_order)

lemma predict_Nil: "predict T [] = Inr []"
  by (simp add: predict_def)

lemma emit_fields [simp]:
  "params (emit e w) = params w"
  "grads (emit e w) = grads w"
  "optimizer (emit e w) = optimizer w"
  "scheduler (emit e w) = scheduler w"
  "training (emit e w) = training w"
  "model_device (emit e w) = model_device w"
  "trace (emit e w) = trace w @ [e]"
  by (simp_all add: emit_def)

lemma model_to_fields [simp]:
  "params (model_to dev w) = params w"
  "grads (model_to dev w) = grads w"
  "optimizer (model_to dev w) = optimizer w"
  "scheduler (model_to dev w) = scheduler w"
  "training (model_to dev w) = training w"
  "model_device (model_to dev w) = dev"
  "trace (model_to dev w) = trace w @ [ModelTo dev]"
  by (simp_all add: model_to_def)

lemma model_train_fields [simp]:
  "params (model_train w) = params w"
  "grads (model_train w) = grads w"
  "optimizer (model_train w) = optimizer w"
  "scheduler (model_train w) = scheduler w"
  "training (model_train w) = Training"
  "model_device (model_train w) = model_device w"
  "trace (model_train w) = trace w @ [ModelTrain]"
  by (simp_all add: model_train_def)

lemma model_eval_fields [simp]:
  "params (model_eval w) = params w"
  "grads (model_eval w) = grads w"
  "optimizer (model_eval w) = optimizer w"
  "scheduler (model_eval w) = scheduler w"
  "training (model_eval w) = Evaluation"
  "model_device (model_eval w) = model_device w"
  "trace (model_eval w) = trace w @ [ModelEval]"
  by (simp_all add: model_eval_def)

lemma optimizer_zero_grad_fields [simp]:
  "params (optimizer_zero_grad T w) = params w"
  "grads (optimizer_zero_grad T w) = zero_grad T (grads w)"
  "optimizer (optimizer_zero_grad T w) = optimizer w"
  "scheduler (optimizer_zero_grad T w) = scheduler w"
  "training (optimizer_zero_grad T w) = training w"
  "model_device (optimizer_zero_grad T w) = model_device w"
  "trace (optimizer_zero_grad T w) = trace w @ [ZeroGrad]"
  by (simp_all add: optimizer_zero_grad_def)

lemma loss_backward_fields [simp]:
  "params (loss_backward T x y w) = params w"
  "grads (loss_backward T x y w) = backward T (params w) x y (grads w)"
  "optimizer (loss_backward T x y w) = optimizer w"
  "scheduler (loss_backward T x y w) = scheduler w"
  "training (loss_backward T x y w) = training w"
  "model_device (loss_backward T x y w) = model_device w"
  "trace (loss_backward T x y w) = trace w @ [Backward]"
  by (simp_all add: loss_backward_def)

lemma optimizer_step_fields [simp]:
  "params (optimizer_step T w) = snd (opt_step T (optimizer w) (grads w) (params w))"
  "grads (optimizer_step T w) = grads w"
  "optimizer (optimizer_step T w) = fst (opt_step T (optimizer w) (grads w) (params w))"
  "scheduler (optimizer_step T w) = scheduler w"
  "training (optimizer_step T w) = training w"
  "model_device (optimizer_step T w) = model_device w"
  "trace (optimizer_step T w) = trace w @ [OptimizerStep]"
  by (simp_all add: optimizer_step_def)

lemma schedular_step_fields [simp]:
  "params (schedular_step step w) = params w"
  "grads (schedular_step step w) = grads w"
  "optimizer (schedular_step step w) = snd (step (scheduler w) (optimizer w))"
  "scheduler (schedular_step step w) = fst (step (scheduler w) (optimizer w))"
  "training (schedular_step step w) = training w"
  "model_device (schedular_step step w) = model_device w"
  "trace (schedular_step step w) = trace w @ [SchedulerStep]"
  by (simp_all add: schedular_step_def)

lemma train_batch_fst:
  "fst (train_batch T sch dev b w) =
     (case batch_acc T (map (forward T Training (params w) (map fst b)) (map fst b)) (map snd b) of
        Inl e \<Rightarrow> Inl e
      | Inr acc \<Rightarrow>
          Inr (loss_fn T (map (forward T Training (params w) (map fst b)) (map fst b)) (map snd b),
               acc))"
  by (simp add: train_batch_def model_call_def Let_def split: sum.splits)

lemma train_batch_trace:
  "trace (snd (train_batch T sch dev b w)) =
     trace w @ [BatchTo dev, ModelTrain, Forward, LossFn, ZeroGrad, Backward, OptimizerStep]
       @ (case sch of None \<Rightarrow> [] | Some step \<Rightarrow> [SchedulerStep])
       @ [Accuracy]
       @ (case fst (train_batch T sch dev b w) of Inl e \<Rightarrow> [] | Inr la \<Rightarrow> [Accumulate])"
  by (simp add: train_batch_def Let_def split: sum.splits option.splits)

lemma train_batch_trace_ok:
  "fst (train_batch T sch dev b w) = Inr la \<Longrightarrow>
   trace (snd (train_batch T sch dev b w)) = trace w @ train_events sch dev"
  by (simp add: train_batch_trace train_events_def)

lemma train_loop_trace:
  "fst (train_loop T sch dev bs l a w) = Inr v \<Longrightarrow>
   trace (snd (train_loop T sch dev bs l a w)) =
     trace w @ concat (replicate (length bs) (train_events sch dev))"
proof (induction bs arbitrary: l a w)
  case Nil
  then show ?case by simp
next
  case (Cons b bs)
  from Cons.prems obtain la where la: "fst (train_batch T sch dev b w) = Inr la"
    by (cases "fst (train_batch T sch dev b w)") simp_all
  with Cons.prems have "fst (train_loop T sch dev bs (l + fst la) (a + snd la)
      (snd (train_batch T sch dev b w))) = Inr v"
    by simp
  from Cons.IH [OF this] la show ?case
    by (simp add: train_batch_trace_ok)
qed

lemma test_batch_fst:
  "fst (test_batch T dev b w) =
     (case batch_acc T (map (forward T Evaluation (params w) (map fst b)) (map fst b)) (map snd b) of
        Inl e \<Rightarrow> Inl e
      | Inr acc \<Rightarrow>
          Inr (loss_fn T (map (forward T Evaluation (params w) (map fst b)) (map fst b)) (map snd b),
               acc))"
  by (simp add: test_batch_def model_call_def Let_def split: sum.splits)

lemma test_batch_frame:
  "params (snd (test_batch T dev b w)) = params w"
  "grads (snd (test_batch T dev b w)) = grads w"
  "optimizer (snd (test_batch T dev b w)) = optimizer w"
  "scheduler (snd (test_batch T dev b w)) = scheduler w"
  by (simp_all add: test_batch_def Let_def split: sum.splits)

lemma test_loop_frame:
  "params (snd (test_loop T dev bs l a w)) = params w \<and>
   grads (snd (test_loop T dev bs l a w)) = grads w \<and>
   optimizer (snd (test_loop T dev bs l a w)) = optimizer w \<and>
   scheduler (snd (test_loop T dev bs l a w)) = scheduler w"
  by (induction bs arbitrary: l a w) (simp_all add: test_batch_frame split: sum.splits)

lemma test_loop_params_only:
  "params w = params w' \<Longrightarrow>
   fst (test_loop T dev bs l a w) = fst (test_loop T dev bs l a w')"
proof (induction bs arbitrary: l a w w')
  case Nil
  show ?case by simp
next
  case (Cons b bs)
  have same: "fst (test_batch T dev b w) = fst (test_batch T dev b w')"
    unfolding test_batch_fst Cons.prems by (rule refl)
  have "params (snd (test_batch T dev b w)) = params (snd (test_batch T dev b w'))"
    using Cons.prems by (simp add: test_batch_frame)
  from Cons.IH [OF this] same show ?case
    by (simp split: sum.splits)
qed

lemma test_step_frame:
  "params (snd (test_step T dev loader w)) = params w \<and>
   grads (snd (test_step T dev loader w)) = grads w \<and>
   optimizer (snd (test_step T dev loader w)) = optimizer w \<and>
   scheduler (snd (test_step T dev loader w)) = scheduler w"
  by (simp add: test_step_def Let_def test_loop_frame split: sum.splits)

lemma test_step_params_only:
  "params w = params w' \<Longrightarrow>
   fst (test_step T dev loader w) = fst (test_step T dev loader w')"
proof -
  assume p: "params w = params w'"
  have "fst (test_loop T dev loader 0 0 (emit (Iterate Testloader) (model_to dev w)))
      = fst (test_loop T dev loader 0 0 (emit (Iterate Testloader) (model_to dev w')))"
    by (rule test_loop_params_only) (simp add: p)
  then show ?thesis
    by (simp add: test_step_def Let_def split: sum.splits)
qed

lemma train_batch_fields:
  "params (snd (train_batch T sch dev b w)) =
     snd (opt_step T (optimizer w)
           (backward T (params w) (map fst b) (map snd b) (zero_grad T (grads w))) (params w))"
  "grads (snd (train_batch T sch dev b w)) =
     backward T (params w) (map fst b) (map snd b) (zero_grad T (grads w))"
  "training (snd (train_batch T sch dev b w)) = Training"
  "model_device (snd (train_batch T sch dev b w)) = model_device w"
  by (simp_all add: train_batch_def Let_def split: sum.splits option.splits)

lemma train_batch_None_fields:
  "optimizer (snd (train_batch T None dev b w)) =
     fst (opt_step T (optimizer w)
           (backward T (params w) (map fst b) (map snd b) (zero_grad T (grads w))) (params w))"
  "scheduler (snd (train_batch T None dev b w)) = scheduler w"
  by (simp_all add: train_batch_def Let_def split: sum.splits)

lemma train_batch_Some_fields:
  "optimizer (snd (train_batch T (Some step) dev b w)) =
     snd (step (scheduler w) (fst (opt_step T (optimizer w)
           (backward T (params w) (map fst b) (map snd b) (zero_grad T (grads w))) (params w))))"
  "scheduler (snd (train_batch T (Some step) dev b w)) =
     fst (step (scheduler w) (fst (opt_step T (optimizer w)
           (backward T (params w) (map fst b) (map snd b) (zero_grad T (grads w))) (params w))))"
  by (simp_all add: train_batch_def Let_def split: sum.splits)

lemma train_loop_totals:
  "fst (train_loop T sch dev bs l a w) = Inr v \<Longrightarrow>
   length (train_pass T sch dev bs w) = length bs \<and>
   fst v = l + sum_list (map fst (train_pass T sch dev bs w)) \<and>
   snd v = a + sum_list (map snd (train_pass T sch dev bs w))"
proof (induction bs arbitrary: l a w)
  case Nil
  then show ?case by auto
next
  case (Cons b bs)
  from Cons.prems obtain la where la: "fst (train_batch T sch dev b w) = Inr la"
    by (cases "fst (train_batch T sch dev b w)") simp_all
  with Cons.prems have "fst (train_loop T sch dev bs (l + fst la) (a + snd la)
      (snd (train_batch T sch dev b w))) = Inr v"
    by simp
  from Cons.IH [OF this] la show ?case
    by simp
qed

lemma test_loop_totals:
  "fst (test_loop T dev bs l a w) = Inr v \<Longrightarrow>
   length (test_pass T dev bs w) = length bs \<and>
   fst v = l + sum_list (map fst (test_pass T dev bs w)) \<and>
   snd v = a + sum_list (map snd (test_pass T dev bs w))"
proof (induction bs arbitrary: l a w)
  case Nil
  then show ?case by auto
next
  case (Cons b bs)
  from Cons.prems obtain la where la: "fst (test_batch T dev b w) = Inr la"
    by (cases "fst (test_batch T dev b w)") simp_all
  with Cons.prems have "fst (test_loop T dev bs (l + fst la) (a + snd la)
      (snd (test_batch T dev b w))) = Inr v"
    by simp
  from Cons.IH [OF this] la show ?case
    by simp
qed

lemma average_Inr:
  "average totals n = Inr m \<Longrightarrow>
   n \<noteq> 0 \<and> fst m = fst totals / real n \<and> snd m = snd totals / real n"
  by (auto simp: average_def truediv_def split: if_splits)

lemma average_zero [simp]: "average totals 0 = Inl ZeroDivisionError"
  by (simp add: average_def truediv_def)

lemma train_step_Inr:
  "fst (train_step T sch dev bs w) = Inr m \<Longrightarrow>
   \<exists>v. fst (train_loop T sch dev bs 0 0 (emit (Iterate Trainloader) (model_to dev w))) = Inr v
      \<and> average v (length bs) = Inr m"
  by (auto simp: train_step_def Let_def split: sum.splits)

lemma test_step_Inr:
  "fst (test_step T dev bs w) = Inr m \<Longrightarrow>
   \<exists>v. fst (test_loop T dev bs 0 0 (emit (Iterate Testloader) (model_to dev w))) = Inr v
      \<and> average v (length bs) = Inr m"
  by (auto simp: test_step_def Let_def split: sum.splits)

lemma train_step_snd:
  "snd (train_step T sch dev bs w) =
   snd (train_loop T sch dev bs 0 0 (emit (Iterate Trainloader) (model_to dev w)))"
  by (simp add: train_step_def Let_def split: sum.splits)

lemma test_step_snd:
  "snd (test_step T dev bs w) =
   snd (test_loop T dev bs 0 0 (emit (Iterate Testloader) (model_to dev w)))"
  by (simp add: test_step_def Let_def split: sum.splits)

lemma eq_sum_le: "eq_sum y y_pred \<le> length y"
proof -
  have "eq_sum y y_pred \<le> length (zip y y_pred)"
    unfolding eq_sum_def by (rule length_filter_le)
  then show ?thesis by simp
qed

lemma batch_acc_bounds: "batch_acc T lg y = Inr a \<Longrightarrow> 0 \<le> a \<and> a \<le> 1"
proof -
  assume h: "batch_acc T lg y = Inr a"
  then obtain yp where a: "truediv (real (eq_sum y yp)) (length y) = Inr a"
    by (auto simp: batch_acc_def split: sum.splits)
  then have n: "length y \<noteq> 0" and av: "a = real (eq_sum y yp) / real (length y)"
    by (auto simp: truediv_def split: if_splits)
  have "real (eq_sum y yp) \<le> real (length y)"
    using eq_sum_le [of y yp] by simp
  with n av show ?thesis by simp
qed

lemma train_batch_acc_bounds:
  "fst (train_batch T sch dev b w) = Inr la \<Longrightarrow> 0 \<le> snd la \<and> snd la \<le> 1"
  by (auto simp: train_batch_fst split: sum.splits dest: batch_acc_bounds)

lemma test_batch_acc_bounds:
  "fst (test_batch T dev b w) = Inr la \<Longrightarrow> 0 \<le> snd la \<and> snd la \<le> 1"
  by (auto simp: test_batch_fst split: sum.splits dest: batch_acc_bounds)

lemma train_pass_acc_bounds:
  "la \<in> set (train_pass T sch dev bs w) \<Longrightarrow> 0 \<le> snd la \<and> snd la \<le> 1"
proof (induction bs arbitrary: w)
  case Nil
  then show ?case by simp
next
  case (Cons b bs)
  then show ?case
    by (cases "fst (train_batch T sch dev b w)") (auto dest: train_batch_acc_bounds)
qed

lemma test_pass_acc_bounds:
  "la \<in> set (test_pass T dev bs w) \<Longrightarrow> 0 \<le> snd la \<and> snd la \<le> 1"
proof (induction bs arbitrary: w)
  case Nil
  then show ?case by simp
next
  case (Cons b bs)
  then show ?case
    by (cases "fst (test_batch T dev b w)") (auto dest: test_batch_acc_bounds)
qed

lemma sum_list_unit_bounds:
  "(\<And>v. v \<in> set vs \<Longrightarrow> 0 \<le> v \<and> v \<le> (1::real)) \<Longrightarrow>
   0 \<le> sum_list vs \<and> sum_list vs \<le> real (length vs)"
proof (induction vs)
  case Nil
  show ?case by simp
next
  case (Cons v vs)
  have "0 \<le> v \<and> v \<le> 1" using Cons.prems by simp
  moreover have "0 \<le> sum_list vs \<and> sum_list vs \<le> real (length vs)"
    using Cons.IH Cons.prems by simp
  ultimately show ?case by simp
qed

lemma mean_unit_bounds:
  assumes "\<And>la. la \<in> set ms \<Longrightarrow> 0 \<le> snd la \<and> snd la \<le> (1::real)"
    and "length ms = n" and "n \<noteq> 0"
  shows "0 \<le> sum_list (map snd ms) / real n \<and> sum_list (map snd ms) / real n \<le> 1"
proof -
  have "0 \<le> sum_list (map snd ms) \<and> sum_list (map snd ms) \<le> real (length (map snd ms))"
    by (rule sum_list_unit_bounds) (use assms(1) in auto)
  with assms(2,3) show ?thesis by simp
qed

lemma mean_nonneg:
  assumes "\<And>la. la \<in> set ms \<Longrightarrow> 0 \<le> (fst la :: real)"
  shows "0 \<le> sum_list (map fst ms) / real n"
proof -
  have "0 \<le> sum_list (map fst ms)"
    by (rule sum_list_nonneg) (use assms in auto)
  then show ?thesis by simp
qed

lemma count_list_concat_replicate:
  "count_list (concat (replicate n evs)) e = n * count_list evs e"
  by (induction n) simp_all

lemma train_step_trace:
  "fst (train_step T sch dev bs w) = Inr m \<Longrightarrow>
   trace (snd (train_step T sch dev bs w)) =
     trace w @ [ModelTo dev, Iterate Trainloader]
       @ concat (replicate (length bs) (train_events sch dev))"
proof -
  assume "fst (train_step T sch dev bs w) = Inr m"
  from train_step_Inr [OF this] obtain v where
    "fst (train_loop T sch dev bs 0 0 (emit (Iterate Trainloader) (model_to dev w))) = Inr v"
    by blast
  from train_loop_trace [OF this] show ?thesis
    by (simp add: train_step_snd)
qed

lemma batch_acc_Nil: "batch_acc T [] [] = Inl ZeroDivisionError"
  by (simp add: batch_acc_def predict_Nil truediv_def eq_sum_def)

lemma train_batch_Nil: "fst (train_batch T sch dev [] w) = Inl ZeroDivisionError"
  by (simp add: train_batch_fst batch_acc_Nil)

lemma test_batch_Nil: "fst (test_batch T dev [] w) = Inl ZeroDivisionError"
  by (simp add: test_batch_fst batch_acc_Nil)

lemma train_loop_empty_batch:
  "[] \<in> set bs \<Longrightarrow> \<exists>e. fst (train_loop T sch dev bs l a w) = Inl e"
proof (induction bs arbitrary: l a w)
  case Nil
  then show ?case by simp
next
  case (Cons b bs)
  show ?case
  proof (cases "fst (train_batch T sch dev b w)")
    case (Inl e)
    then show ?thesis by simp
  next
    case (Inr la)
    then have "b \<noteq> []" using train_batch_Nil [of T sch dev w] by auto
    with Cons.prems have "[] \<in> set bs" by auto
    from Cons.IH [OF this] Inr show ?thesis by simp
  qed
qed

lemma test_loop_empty_batch:
  "[] \<in> set bs \<Longrightarrow> \<exists>e. fst (test_loop T dev bs l a w) = Inl e"
proof (induction bs arbitrary: l a w)
  case Nil
  then show ?case by simp
next
  case (Cons b bs)
  show ?case
  proof (cases "fst (test_batch T dev b w)")
    case (Inl e)
    then show ?thesis by simp
  next
    case (Inr la)
    then have "b \<noteq> []" using test_batch_Nil [of T dev w] by auto
    with Cons.prems have "[] \<in> set bs" by auto
    from Cons.IH [OF this] Inr show ?thesis by simp
  qed
qed

lemma train_step_loop_error:
  "fst (train_loop T sch dev bs 0 0 (emit (Iterate Trainloader) (model_to dev w))) = Inl e \<Longrightarrow>
   fst (train_step T sch dev bs w) = Inl e"
  by (simp add: train_step_def Let_def)

lemma test_step_loop_error:
  "fst (test_loop T dev bs 0 0 (emit (Iterate Testloader) (model_to dev w))) = Inl e \<Longrightarrow>
   fst (test_step T dev bs w) = Inl e"
  by (simp add: test_step_def Let_def)

lemma train_epoch_Inr:
  "fst (train_epoch T dev trl tel k r w) = Inr r' \<Longrightarrow>
   \<exists>m_tr m_te.
     fst (train_step T None dev trl w) = Inr m_tr \<and>
     fst (test_step T dev tel (snd (train_step T None dev trl w))) = Inr m_te \<and>
     r' = r\<lparr>train_loss := train_loss r @ [fst m_tr], train_acc := train_acc r @ [snd m_tr],
            test_loss := test_loss r @ [fst m_te], test_acc := test_acc r @ [snd m_te]\<rparr>"
  by (auto simp: train_epoch_def Let_def split: sum.splits)

lemma train_epochs_append:
  "train_epochs T dev trl tel (es1 @ es2) r w =
     (case fst (train_epochs T dev trl tel es1 r w) of
        Inl e \<Rightarrow> (Inl e, snd (train_epochs T dev trl tel es1 r w))
      | Inr r1 \<Rightarrow> train_epochs T dev trl tel es2 r1 (snd (train_epochs T dev trl tel es1 r w)))"
proof (induction es1 arbitrary: r w)
  case Nil
  show ?case by simp
next
  case (Cons k es1)
  show ?case
    by (cases "fst (train_epoch T dev trl tel k r w)") (simp_all add: Cons.IH split: sum.splits)
qed

lemma train_epochs_grows:
  "fst (train_epochs T dev trl tel es r w) = Inr r' \<Longrightarrow>
   \<exists>a b c d. length a = length es \<and> length b = length es \<and>
     length c = length es \<and> length d = length es \<and>
     train_loss r' = train_loss r @ a \<and> train_acc r' = train_acc r @ b \<and>
     test_loss r' = test_loss r @ c \<and> test_acc r' = test_acc r @ d"
proof (induction es arbitrary: r w)
  case Nil
  then show ?case by simp
next
  case (Cons k es)
  from Cons.prems obtain r1 where r1: "fst (train_epoch T dev trl tel k r w) = Inr r1"
    by (cases "fst (train_epoch T dev trl tel k r w)") simp_all
  with Cons.prems have rest:
    "fst (train_epochs T dev trl tel es r1 (snd (train_epoch T dev trl tel k r w))) = Inr r'"
    by simp
  from train_epoch_Inr [OF r1] obtain m_tr m_te where
    r1_eq: "r1 = r\<lparr>train_loss := train_loss r @ [fst m_tr], train_acc := train_acc r @ [snd m_tr],
            test_loss := test_loss r @ [fst m_te], test_acc := test_acc r @ [snd m_te]\<rparr>"
    by blast
  from Cons.IH [OF rest] obtain a b c d where
    "length a = length es" "length b = length es" "length c = length es" "length d = length es"
    "train_loss r' = train_loss r1 @ a" "train_acc r' = train_acc r1 @ b"
    "test_loss r' = test_loss r1 @ c" "test_acc r' = test_acc r1 @ d"
    by blast
  with r1_eq have
    "length (fst m_tr # a) = length (k # es) \<and> length (snd m_tr # b) = length (k # es) \<and>
     length (fst m_te # c) = length (k # es) \<and> length (snd m_te # d) = length (k # es) \<and>
     train_loss r' = train_loss r @ (fst m_tr # a) \<and> train_acc r' = train_acc r @ (snd m_tr # b) \<and>
     test_loss r' = test_loss r @ (fst m_te # c) \<and> test_acc r' = test_acc r @ (snd m_te # d)"
    by simp
  then show ?case by blast
qed

lemma train_lengths:
  assumes "fst (train T trl tel sch e dev w) = Inr r"
  shows "length (train_loss r) = nat e \<and> length (train_acc r) = nat e \<and>
         length (test_loss r) = nat e \<and> length (test_acc r) = nat e"
  using train_epochs_grows [OF assms [unfolded train_def]] by auto

lemma train_entry:
  assumes fin: "fst (train T trl tel sch e dev w) = Inr r" and i: "i < nat e"
  shows "\<exists>m_tr m_te.
     fst (train_step T None dev trl (snd (train T trl tel sch (int i) dev w))) = Inr m_tr \<and>
     fst (test_step T dev tel
           (snd (train_step T None dev trl (snd (train T trl tel sch (int i) dev w))))) = Inr m_te \<and>
     train_loss r ! i = fst m_tr \<and> train_acc r ! i = snd m_tr \<and>
     test_loss r ! i = fst m_te \<and> test_acc r ! i = snd m_te"
proof -
  let ?r0 = "\<lparr>train_loss = [], train_acc = [], test_loss = [], test_acc = []\<rparr>"
  let ?A = "train_epochs T dev trl tel [0..<i] ?r0 w"
  have split: "[0..<nat e] = [0..<i] @ i # [Suc i..<nat e]"
  proof -
    have "[0..<nat e] = [0..<i] @ [i..<nat e]"
      using i upt_add_eq_append [of 0 i "nat e - i"] by simp
    moreover have "[i..<nat e] = i # [Suc i..<nat e]"
      using i by (simp add: upt_conv_Cons)
    ultimately show ?thesis by simp
  qed
  have whole: "fst (train_epochs T dev trl tel ([0..<i] @ i # [Suc i..<nat e]) ?r0 w) = Inr r"
    using fin unfolding train_def split .
  then obtain r1 where r1: "fst ?A = Inr r1"
    unfolding train_epochs_append by (cases "fst ?A") simp_all
  with whole have tail: "fst (train_epochs T dev trl tel (i # [Suc i..<nat e]) r1 (snd ?A)) = Inr r"
    unfolding train_epochs_append by simp
  then obtain r2 where r2: "fst (train_epoch T dev trl tel i r1 (snd ?A)) = Inr r2"
    by (cases "fst (train_epoch T dev trl tel i r1 (snd ?A))") simp_all
  with tail have rest: "fst (train_epochs T dev trl tel [Suc i..<nat e] r2
      (snd (train_epoch T dev trl tel i r1 (snd ?A)))) = Inr r"
    by simp
  from train_epochs_grows [OF r1] have len1:
    "length (train_loss r1) = i" "length (train_acc r1) = i"
    "length (test_loss r1) = i" "length (test_acc r1) = i"
    by auto
  from train_epoch_Inr [OF r2] obtain m_tr m_te where
    tr: "fst (train_step T None dev trl (snd ?A)) = Inr m_tr" and
    te: "fst (test_step T dev tel (snd (train_step T None dev trl (snd ?A)))) = Inr m_te" and
    r2_eq: "r2 = r1\<lparr>train_loss := train_loss r1 @ [fst m_tr], train_acc := train_acc r1 @ [snd m_tr],
            test_loss := test_loss r1 @ [fst m_te], test_acc := test_acc r1 @ [snd m_te]\<rparr>"
    by blast
  from train_epochs_grows [OF rest] obtain a b c d where
    "train_loss r = train_loss r2 @ a" "train_acc r = train_acc r2 @ b"
    "test_loss r = test_loss r2 @ c" "test_acc r = test_acc r2 @ d"
    by blast
  with r2_eq len1 have
    "train_loss r ! i = fst m_tr \<and> train_acc r ! i = snd m_tr \<and>
     test_loss r ! i = fst m_te \<and> test_acc r ! i = snd m_te"
    by (simp add: nth_append)
  moreover have "snd (train T trl tel sch (int i) dev w) = snd ?A"
    by (simp add: train_def)
  ultimately show ?thesis using tr te by auto
qed

lemmas toy_eval =
  toy_def toy_world_def toy_hook_def toy_train_def toy_test_def
  train_step_def test_step_def Let_def train_batch_fst test_batch_fst
  train_batch_fields train_batch_None_fields train_batch_Some_fields test_batch_frame
  batch_acc_def predict_exact eq_sum_def truediv_def average_def

lemma toy_train_step:
  "fst (train_step toy sch ''cpu'' toy_train toy_world) = Inr (3, 3 / 4)"
  by (simp add: toy_eval)

lemma toy_train_pass:
  "train_pass toy sch ''cpu'' toy_train (emit (Iterate Trainloader) (model_to ''cpu'' toy_world))
     = [(2, 1), (4, 1 / 2)]"
  by (simp add: toy_eval)

lemma toy_test_step:
  "fst (test_step toy ''cpu'' toy_test toy_world) = Inr (4, 0)"
  by (simp add: toy_eval)

lemma toy_train2:
  "fst (train toy toy_train toy_test (Some toy_hook) 2 ''cpu'' toy_world) =
     Inr \<lparr>train_loss = [3, 3], train_acc = [3 / 4, 1 / 4], test_loss = [4, 4], test_acc = [1, 1]\<rparr>"
  by (simp add: train_def train_epoch_def upt_rec numeral_2_eq_2 train_step_snd test_step_snd
      toy_eval test_loop_frame)

lemma test_batch_trace:
  "trace (snd (test_batch T dev b w)) =
     trace w @ [BatchTo dev, ModelEval, Forward, LossFn, Accuracy]
       @ (case fst (test_batch T dev b w) of Inl e \<Rightarrow> [] | Inr la \<Rightarrow> [Accumulate])"
  by (simp add: test_batch_def Let_def split: sum.splits)

lemma train_loop_None_scheduler:
  "scheduler (snd (train_loop T None dev bs l a w)) = scheduler w \<and>
   count_list (trace (snd (train_loop T None dev bs l a w))) SchedulerStep =
     count_list (trace w) SchedulerStep"
proof (induction bs arbitrary: l a w)
  case Nil
  show ?case by simp
next
  case (Cons b bs)
  have step: "scheduler (snd (train_batch T None dev b w)) = scheduler w \<and>
      count_list (trace (snd (train_batch T None dev b w))) SchedulerStep =
        count_list (trace w) SchedulerStep"
    by (simp add: train_batch_None_fields train_batch_trace split: sum.splits)
  show ?case
  proof (cases "fst (train_batch T None dev b w)")
    case (Inl e)
    with step show ?thesis by simp
  next
    case (Inr la)
    with step Cons.IH [of "l + fst la" "a + snd la" "snd (train_batch T None dev b w)"]
    show ?thesis by simp
  qed
qed

lemma test_loop_scheduler_count:
  "count_list (trace (snd (test_loop T dev bs l a w))) SchedulerStep =
     count_list (trace w) SchedulerStep"
proof (induction bs arbitrary: l a w)
  case Nil
  show ?case by simp
next
  case (Cons b bs)
  have step: "count_list (trace (snd (test_batch T dev b w))) SchedulerStep =
        count_list (trace w) SchedulerStep"
    by (simp add: test_batch_trace split: sum.splits)
  show ?case
  proof (cases "fst (test_batch T dev b w)")
    case (Inl e)
    with step show ?thesis by simp
  next
    case (Inr la)
    with step Cons.IH [of "l + fst la" "a + snd la" "snd (test_batch T dev b w)"]
    show ?thesis by simp
  qed
qed

lemma train_epoch_scheduler:
  "scheduler (snd (train_epoch T dev trl tel k r w)) = scheduler w \<and>
   count_list (trace (snd (train_epoch T dev trl tel k r w))) SchedulerStep =
     count_list (trace w) SchedulerStep"
  using train_loop_None_scheduler [of T dev trl 0 0 "emit (Iterate Trainloader) (model_to dev w)"]
    test_loop_frame [of T dev tel 0 0
      "emit (Iterate Testloader) (model_to dev (snd (train_step T None dev trl w)))"]
    test_loop_scheduler_count [of T dev tel 0 0
      "emit (Iterate Testloader) (model_to dev (snd (train_step T None dev trl w)))"]
  by (simp add: train_epoch_def Let_def train_step_snd test_step_snd split: sum.splits)

lemma train_epochs_scheduler:
  "scheduler (snd (train_epochs T dev trl tel es r w)) = scheduler w \<and>
   count_list (trace (snd (train_epochs T dev trl tel es r w))) SchedulerStep =
     count_list (trace w) SchedulerStep"
proof (induction es arbitrary: r w)
  case Nil
  show ?case by simp
next
  case (Cons k es)
  show ?case
  proof (cases "fst (train_epoch T dev trl tel k r w)")
    case (Inl e)
    with train_epoch_scheduler [of T dev trl tel k r w] show ?thesis by simp
  next
    case (Inr r1)
    with train_epoch_scheduler [of T dev trl tel k r w]
      Cons.IH [of r1 "snd (train_epoch T dev trl tel k r w)"]
    show ?thesis by simp
  qed
qed

lemma train_scheduler_untouched:
  "scheduler (snd (train T trl tel sch e dev w)) = scheduler w \<and>
   count_list (trace (snd (train T trl tel sch e dev w))) SchedulerStep =
     count_list (trace w) SchedulerStep"
  by (simp add: train_def train_epochs_scheduler)

lemma toy_train1:
  "fst (train toy toy_train toy_test (Some toy_hook) 1 ''cpu'' toy_world) =
     Inr \<lparr>train_loss = [3], train_acc = [3 / 4], test_loss = [4], test_acc = [1]\<rparr>"
  by (simp add: train_def train_epoch_def train_step_snd test_step_snd
      toy_eval test_loop_frame)

lemma toy_train1_trace:
  "trace (snd (train toy toy_train toy_test (Some toy_hook) 1 ''cpu'' toy_world)) =
     [ModelTo ''cpu'', Iterate Trainloader,
      BatchTo ''cpu'', ModelTrain, Forward, LossFn, ZeroGrad, Backward, OptimizerStep,
      Accuracy, Accumulate,
      BatchTo ''cpu'', ModelTrain, Forward, LossFn, ZeroGrad, Backward, OptimizerStep,
      Accuracy, Accumulate,
      ModelTo ''cpu'', Iterate Testloader,
      BatchTo ''cpu'', ModelEval, Forward, LossFn, Accuracy, Accumulate,
      Print 1 3 4 (3 / 4) 1]"
  by (simp add: train_def train_epoch_def train_step_snd test_step_snd
      toy_eval test_loop_frame train_batch_trace test_batch_trace)

lemma train_pass_loss:
  "la \<in> set (train_pass T sch dev bs w) \<Longrightarrow> \<exists>lg y. fst la = loss_fn T lg y"
proof (induction bs arbitrary: w)
  case Nil
  then show ?case by simp
next
  case (Cons b bs)
  show ?case
  proof (cases "fst (train_batch T sch dev b w)")
    case (Inl e)
    with Cons.prems show ?thesis by simp
  next
    case (Inr m)
    then have "fst m =
        loss_fn T (map (forward T Training (params w) (map fst b)) (map fst b)) (map snd b)"
      by (auto simp: train_batch_fst split: sum.splits)
    then have "\<exists>lg y. fst m = loss_fn T lg y"
      by blast
    with Inr Cons show ?thesis by auto
  qed
qed

lemma test_pass_loss:
  "la \<in> set (test_pass T dev bs w) \<Longrightarrow> \<exists>lg y. fst la = loss_fn T lg y"
proof (induction bs arbitrary: w)
  case Nil
  then show ?case by simp
next
  case (Cons b bs)
  show ?case
  proof (cases "fst (test_batch T dev b w)")
    case (Inl e)
    with Cons.prems show ?thesis by simp
  next
    case (Inr m)
    then have "fst m =
        loss_fn T (map (forward T Evaluation (params w) (map fst b)) (map fst b)) (map snd b)"
      by (auto simp: test_batch_fst split: sum.splits)
    then have "\<exists>lg y. fst m = loss_fn T lg y"
      by blast
    with Inr Cons show ?thesis by auto
  qed
qed

lemma train_step_bounds:
  assumes "fst (train_step T sch dev bs w) = Inr m"
  shows "0 \<le> snd m \<and> snd m \<le> 1 \<and> ((\<forall>lg y. 0 \<le> loss_fn T lg y) \<longrightarrow> 0 \<le> fst m)"
proof -
  let ?ms = "train_pass T sch dev bs (emit (Iterate Trainloader) (model_to dev w))"
  from train_step_Inr [OF assms] obtain v where
    v: "fst (train_loop T sch dev bs 0 0 (emit (Iterate Trainloader) (model_to dev w))) = Inr v"
    and avg: "average v (length bs) = Inr m"
    by blast
  from train_loop_totals [OF v] average_Inr [OF avg] have
    len: "length ?ms = length bs" and n: "length bs \<noteq> 0" and
    l: "fst m = sum_list (map fst ?ms) / real (length bs)" and
    a: "snd m = sum_list (map snd ?ms) / real (length bs)"
    by simp_all
  have "0 \<le> snd m \<and> snd m \<le> 1"
    unfolding a by (rule mean_unit_bounds [OF train_pass_acc_bounds len n])
  moreover have "0 \<le> fst m" if "\<forall>lg y. 0 \<le> loss_fn T lg y"
    unfolding l by (rule mean_nonneg) (use that train_pass_loss in fastforce)
  ultimately show ?thesis by blast
qed

lemma test_step_bounds:
  assumes "fst (test_step T dev bs w) = Inr m"
  shows "0 \<le> snd m \<and> snd m \<le> 1 \<and> ((\<forall>lg y. 0 \<le> loss_fn T lg y) \<longrightarrow> 0 \<le> fst m)"
proof -
  let ?ms = "test_pass T dev bs (emit (Iterate Testloader) (model_to dev w))"
  from test_step_Inr [OF assms] obtain v where
    v: "fst (test_loop T dev bs 0 0 (emit (Iterate Testloader) (model_to dev w))) = Inr v"
    and avg: "average v (length bs) = Inr m"
    by blast
  from test_loop_totals [OF v] average_Inr [OF avg] have
    len: "length ?ms = length bs" and n: "length bs \<noteq> 0" and
    l: "fst m = sum_list (map fst ?ms) / real (length bs)" and
    a: "snd m = sum_list (map snd ?ms) / real (length bs)"
    by simp_all
  have "0 \<le> snd m \<and> snd m \<le> 1"
    unfolding a by (rule mean_unit_bounds [OF test_pass_acc_bounds len n])
  moreover have "0 \<le> fst m" if "\<forall>lg y. 0 \<le> loss_fn T lg y"
    unfolding l by (rule mean_nonneg) (use that test_pass_loss in fastforce)
  ultimately show ?thesis by blast
qed

lemma train_batch_result:
  "fst (train_batch T sch dev b w) =
     (case argmax_dim1 (map (softmax T) (train_logits T b w)) of
        Inl e \<Rightarrow> Inl e
      | Inr y_pred \<Rightarrow>
          if b = [] then Inl ZeroDivisionError
          else Inr (loss_fn T (train_logits T b w) (map snd b),
                    real (eq_sum (map snd b) y_pred) / real (length b)))"
  by (simp add: train_batch_fst batch_acc_def predict_def truediv_def train_logits_def
      split: sum.splits)

lemma train_batch_world:
  "grads (snd (train_batch T sch dev b w)) = fresh_grads T b w"
  "params (snd (train_batch T sch dev b w)) = snd (update T b w)"
  "optimizer (snd (train_batch T sch dev b w)) =
     (case sch of
        None \<Rightarrow> fst (update T b w)
      | Some step \<Rightarrow> snd (step (scheduler w) (fst (update T b w))))"
  "scheduler (snd (train_batch T sch dev b w)) =
     (case sch of
        None \<Rightarrow> scheduler w
      | Some step \<Rightarrow> fst (step (scheduler w) (fst (update T b w))))"
  by (simp_all add: train_batch_fields train_batch_None_fields train_batch_Some_fields
      update_def fresh_grads_def split: option.splits)

lemma train_loop_world:
  "snd (train_loop T sch dev bs l a w) =
     foldl (\<lambda>w b. snd (train_batch T sch dev b w)) w (processed T sch dev bs w)"
proof (induction bs arbitrary: l a w)
  case Nil
  show ?case by (simp add: processed_def)
next
  case (Cons b bs)
  show ?case
  proof (cases "fst (train_batch T sch dev b w)")
    case (Inl e)
    then show ?thesis by (simp add: processed_def)
  next
    case (Inr la)
    with Cons.IH [of "l + fst la" "a + snd la" "snd (train_batch T sch dev b w)"]
    show ?thesis by (simp add: processed_def)
  qed
qed

lemma train_loop_processed_all:
  "fst (train_loop T sch dev bs l a w) = Inr v \<Longrightarrow> processed T sch dev bs w = bs"
  using train_loop_totals [of T sch dev bs l a w v] by (simp add: processed_def)

lemma train_batch_counter:
  assumes "\<forall>k g p. cnt (fst (opt_step T k g p)) = Suc (cnt k)"
    and "\<forall>step s k. sch = Some step \<longrightarrow> cnt (snd (step s k)) = cnt k"
  shows "cnt (optimizer (snd (train_batch T sch dev b w))) = Suc (cnt (optimizer w))"
  using assms by (cases sch) (simp_all add: train_batch_world update_def)

lemma foldl_train_batch_counter:
  assumes "\<forall>k g p. cnt (fst (opt_step T k g p)) = Suc (cnt k)"
    and "\<forall>step s k. sch = Some step \<longrightarrow> cnt (snd (step s k)) = cnt k"
  shows "cnt (optimizer (foldl (\<lambda>w b. snd (train_batch T sch dev b w)) w bs)) =
           cnt (optimizer w) + length bs"
proof (induction bs arbitrary: w)
  case Nil
  show ?case by simp
next
  case (Cons b bs)
  show ?case
    using Cons.IH [of "snd (train_batch T sch dev b w)"] train_batch_counter [OF assms, of dev b w]
    by simp
qed

lemma round32_binade:
  assumes "2 powr (of_int k) \<le> \<bar>v\<bar>" and "\<bar>v\<bar> < 2 powr (of_int k + 1)"
  shows "round32 v = of_int (round (v / 2 powr (of_int k - 23))) * 2 powr (of_int k - 23)"
proof -
  have pos: "0 < \<bar>v\<bar>" using assms(1) by (smt (verit) powr_gt_zero)
  have "of_int k \<le> log 2 \<bar>v\<bar>"
    using assms(1) pos by (simp add: le_log_iff)
  moreover have "log 2 \<bar>v\<bar> < of_int k + 1"
    using assms(2) pos by (simp add: log_less_iff)
  ultimately have "\<lfloor>log 2 \<bar>v\<bar>\<rfloor> = k"
    by (simp add: floor_eq_iff)
  with pos show ?thesis by (simp add: round32_def)
qed

lemma round32_1: "round32 1 = 1"
  using round32_binade [of 0 1] by (simp add: powr_minus)

lemma round32_2: "round32 2 = 2"
  using round32_binade [of 1 2] by (simp add: powr_minus)

lemma round32_half: "round32 (1 / 2) = 1 / 2"
  using round32_binade [of "-1" "1/2"] by (simp add: powr_minus)

lemma round32_near_one:
  assumes "1 - 1 / 2 ^ 26 \<le> v" and "v < 1"
  shows "round32 v = 1"
proof -
  have b: "2 powr (of_int (-1)) \<le> \<bar>v\<bar>" "\<bar>v\<bar> < 2 powr (of_int (-1) + 1)"
    using assms by (simp_all add: powr_minus)
  have u: "2 powr (of_int (-1) - 23) = (1 / 2 ^ 24 :: real)"
    by (simp add: powr_minus)
  have "round (v / (1 / 2 ^ 24)) = 2 ^ 24"
    unfolding round_def using assms by (simp add: floor_eq_iff)
  then have "of_int (round (v / (1 / 2 ^ 24))) * (1 / 2 ^ 24) = (1::real)"
    by simp
  then show ?thesis
    unfolding round32_binade [OF b] u .
qed

lemma round32_exp_tiny:
  assumes "0 < t" and "t \<le> 1 / 2 ^ 26"
  shows "round32 (exp (- t)) = 1"
proof (rule round32_near_one)
  have "1 + (- t) \<le> exp (- t)"
    by (rule exp_ge_add_one_self)
  with assms show "1 - 1 / 2 ^ 26 \<le> exp (- t)" by simp
  show "exp (- t) < 1" using assms by simp
qed

lemma softmax32_tie: "softmax32 [0, 1 / 2 ^ 30] = [1 / 2, 1 / 2]"
proof -
  have e: "round32 (exp (- (1 / 1073741824))) = 1"
    by (rule round32_exp_tiny) simp_all
  show ?thesis
    by (simp add: softmax32_def Let_def e round32_1 round32_2 round32_half)
qed

section \<open>The properties\<close>

subsection \<open>C1: the schedule under \<open>train\<close>\<close>

text \<open>
  C1 says that \<open>train\<close>, called with a schedule, advances it once per training batch and
  never during evaluation. \<open>train_step\<close> does so when it is given the schedule, but \<open>train\<close>
  does not pass its \<open>schedular\<close> argument on (lines 147-151), so under \<open>train\<close> the
  schedule is never advanced. On the small instance, one epoch over two training batches
  completes with two optimizer steps and no scheduler step, and the scheduler is in its
  initial state; \<open>train_step\<close> called with the same schedule advances it twice.
\<close>

theorem train_drops_schedular:
  "fst (train toy toy_train toy_test (Some toy_hook) 1 ''cpu'' toy_world) =
     Inr \<lparr>train_loss = [3], train_acc = [3 / 4], test_loss = [4], test_acc = [1]\<rparr> \<and>
   count_list (trace (snd (train toy toy_train toy_test (Some toy_hook) 1 ''cpu'' toy_world)))
     OptimizerStep = 2 \<and>
   count_list (trace (snd (train toy toy_train toy_test (Some toy_hook) 1 ''cpu'' toy_world)))
     SchedulerStep = 0 \<and>
   scheduler (snd (train toy toy_train toy_test (Some toy_hook) 1 ''cpu'' toy_world)) = 0 \<and>
   scheduler (snd (train_step toy (Some toy_hook) ''cpu'' toy_train toy_world)) = 2"
  apply (simp only: toy_train1 toy_train1_trace train_scheduler_untouched)
  apply (simp add: toy_world_def)
  apply (simp add: train_step_snd toy_eval)
  done

subsection \<open>C2: an empty batch source\<close>

text \<open>
  C2 says that \<open>train_step\<close> and \<open>test_step\<close> report an empty batch source as a
  precondition violation before the average is attempted. Read as: the call on an empty
  source ends in \<open>EmptyBatchSource\<close>. It does not: no check stands before lines 56 and 96,
  and the error is the one the averaging division raises.
\<close>

theorem empty_source_not_guarded:
  "fst (train_step toy None ''cpu'' [] toy_world) \<noteq> Inl EmptyBatchSource \<and>
   fst (test_step toy ''cpu'' [] toy_world) \<noteq> Inl EmptyBatchSource"
  by (simp add: train_step_def test_step_def Let_def)

text \<open>
  C2 as amended: on an empty batch source \<open>train_step\<close> and \<open>test_step\<close> return no value
  (so no NaN): both raise \<open>ZeroDivisionError\<close>, which is the outcome of the averaging
  division of the untouched totals by \<open>len(loader) = 0\<close>; the loop body has not run.
\<close>

theorem empty_source_raises_zero_division:
  "fst (train_step T sch dev [] w) = Inl ZeroDivisionError \<and>
   fst (test_step T dev [] w) = Inl ZeroDivisionError \<and>
   fst (train_step T sch dev [] w) = average (0, 0) 0 \<and>
   fst (test_step T dev [] w) = average (0, 0) 0 \<and>
   trace (snd (train_step T sch dev [] w)) = trace w @ [ModelTo dev, Iterate Trainloader] \<and>
   trace (snd (test_step T dev [] w)) = trace w @ [ModelTo dev, Iterate Testloader]"
  by (simp add: train_step_def test_step_def Let_def)

subsection \<open>C3: the result record of \<open>train\<close>\<close>

text \<open>
  C3: for every epoch count \<open>e \<ge> 0\<close>, a completed call of \<open>train\<close> returns a record whose
  four lists have length \<open>e\<close>, one entry per epoch and in epoch order: entry \<open>i\<close> of each
  list is the value that \<open>train_step\<close>, respectively \<open>test_step\<close>, returned in epoch \<open>i\<close>,
  that is, on the world the first \<open>i\<close> epochs left.
\<close>

theorem train_result_per_epoch:
  assumes "0 \<le> e" and "fst (train T trl tel sch e dev w) = Inr r"
  shows "int (length (train_loss r)) = e \<and> int (length (train_acc r)) = e \<and>
         int (length (test_loss r)) = e \<and> int (length (test_acc r)) = e \<and>
         (\<forall>i < nat e. \<exists>m_tr m_te.
            fst (train_step T None dev trl (snd (train T trl tel sch (int i) dev w))) = Inr m_tr \<and>
            fst (test_step T dev tel
                  (snd (train_step T None dev trl (snd (train T trl tel sch (int i) dev w)))))
              = Inr m_te \<and>
            train_loss r ! i = fst m_tr \<and> train_acc r ! i = snd m_tr \<and>
            test_loss r ! i = fst m_te \<and> test_acc r ! i = snd m_te)"
  using assms train_lengths [OF assms(2)] train_entry [OF assms(2)] by simp

theorem train_result_per_epoch_witness:
  "(0::int) \<le> 2 \<and>
   fst (train toy toy_train toy_test (Some toy_hook) 2 ''cpu'' toy_world) =
     Inr \<lparr>train_loss = [3, 3], train_acc = [3 / 4, 1 / 4],
          test_loss = [4, 4], test_acc = [1, 1]\<rparr> \<and>
   int (length [3, 3 :: real]) = 2 \<and>
   (\<exists>m_tr. fst (train_step toy None ''cpu'' toy_train
            (snd (train toy toy_train toy_test (Some toy_hook) (int 1) ''cpu'' toy_world)))
          = Inr m_tr \<and> snd m_tr = [3 / 4, 1 / 4 :: real] ! 1)"
proof -
  have e: "(0::int) \<le> 2" by simp
  from train_result_per_epoch [OF e toy_train2] have
    "\<forall>i < nat 2. \<exists>m_tr m_te.
       fst (train_step toy None ''cpu'' toy_train
             (snd (train toy toy_train toy_test (Some toy_hook) (int i) ''cpu'' toy_world)))
         = Inr m_tr \<and>
       fst (test_step toy ''cpu'' toy_test
             (snd (train_step toy None ''cpu'' toy_train
               (snd (train toy toy_train toy_test (Some toy_hook) (int i) ''cpu'' toy_world)))))
         = Inr m_te \<and>
       [3, 3] ! i = fst m_tr \<and> [3 / 4, 1 / 4] ! i = snd m_tr \<and>
       [4, 4] ! i = fst m_te \<and> [1, 1] ! i = snd m_te"
    by simp
  then have "\<exists>m_tr m_te.
       fst (train_step toy None ''cpu'' toy_train
             (snd (train toy toy_train toy_test (Some toy_hook) (int 1) ''cpu'' toy_world)))
         = Inr m_tr \<and>
       fst (test_step toy ''cpu'' toy_test
             (snd (train_step toy None ''cpu'' toy_train
               (snd (train toy toy_train toy_test (Some toy_hook) (int 1) ''cpu'' toy_world)))))
         = Inr m_te \<and>
       [3, 3] ! 1 = fst m_tr \<and> [3 / 4, 1 / 4] ! 1 = snd m_tr \<and>
       [4, 4] ! 1 = fst m_te \<and> [1, 1] ! 1 = snd m_te"
    by (rule allE [where x = 1]) simp
  then show ?thesis using toy_train2 by auto
qed

subsection \<open>C4: the returned means\<close>

text \<open>
  C4: a call of \<open>train_step\<close> or \<open>test_step\<close> that returns has run on \<open>n \<ge> 1\<close> batches,
  every batch contributed one (loss, accuracy) pair, and the pair returned is the sum of
  the \<open>n\<close> losses divided by \<open>n\<close> and the sum of the \<open>n\<close> accuracies divided by \<open>n\<close>: the
  unweighted mean over batches, whatever the batch sizes.
\<close>

theorem step_returns_batch_mean:
  "(fst (train_step T sch dev loader w) = Inr m \<longrightarrow>
      loader \<noteq> [] \<and>
      length (train_pass T sch dev loader (emit (Iterate Trainloader) (model_to dev w)))
        = length loader \<and>
      fst m = sum_list (map fst (train_pass T sch dev loader
                (emit (Iterate Trainloader) (model_to dev w)))) / real (length loader) \<and>
      snd m = sum_list (map snd (train_pass T sch dev loader
                (emit (Iterate Trainloader) (model_to dev w)))) / real (length loader)) \<and>
   (fst (test_step T dev loader' w') = Inr m' \<longrightarrow>
      loader' \<noteq> [] \<and>
      length (test_pass T dev loader' (emit (Iterate Testloader) (model_to dev w')))
        = length loader' \<and>
      fst m' = sum_list (map fst (test_pass T dev loader'
                (emit (Iterate Testloader) (model_to dev w')))) / real (length loader') \<and>
      snd m' = sum_list (map snd (test_pass T dev loader'
                (emit (Iterate Testloader) (model_to dev w')))) / real (length loader'))"
proof (intro conjI impI)
  assume "fst (train_step T sch dev loader w) = Inr m"
  from train_step_Inr [OF this] obtain v where
    v: "fst (train_loop T sch dev loader 0 0 (emit (Iterate Trainloader) (model_to dev w))) = Inr v"
    and avg: "average v (length loader) = Inr m"
    by blast
  from train_loop_totals [OF v] average_Inr [OF avg]
  show "loader \<noteq> []"
    and "length (train_pass T sch dev loader (emit (Iterate Trainloader) (model_to dev w)))
        = length loader"
    and "fst m = sum_list (map fst (train_pass T sch dev loader
                (emit (Iterate Trainloader) (model_to dev w)))) / real (length loader)"
    and "snd m = sum_list (map snd (train_pass T sch dev loader
                (emit (Iterate Trainloader) (model_to dev w)))) / real (length loader)"
    by simp_all
next
  assume "fst (test_step T dev loader' w') = Inr m'"
  from test_step_Inr [OF this] obtain v where
    v: "fst (test_loop T dev loader' 0 0 (emit (Iterate Testloader) (model_to dev w'))) = Inr v"
    and avg: "average v (length loader') = Inr m'"
    by blast
  from test_loop_totals [OF v] average_Inr [OF avg]
  show "loader' \<noteq> []"
    and "length (test_pass T dev loader' (emit (Iterate Testloader) (model_to dev w')))
        = length loader'"
    and "fst m' = sum_list (map fst (test_pass T dev loader'
                (emit (Iterate Testloader) (model_to dev w')))) / real (length loader')"
    and "snd m' = sum_list (map snd (test_pass T dev loader'
                (emit (Iterate Testloader) (model_to dev w')))) / real (length loader')"
    by simp_all
qed

text \<open>The batch losses 2 and 4 of the small instance give the mean loss 3.\<close>

theorem step_returns_batch_mean_witness:
  "map fst (train_pass toy None ''cpu'' toy_train
      (emit (Iterate Trainloader) (model_to ''cpu'' toy_world))) = [2, 4] \<and>
   fst (train_step toy None ''cpu'' toy_train toy_world) = Inr (3, 3 / 4) \<and>
   fst (test_step toy ''cpu'' toy_test toy_world) = Inr (4, 0) \<and>
   toy_train \<noteq> [] \<and> toy_test \<noteq> [] \<and>
   (3::real) = sum_list [2, 4] / real (length toy_train)"
  using step_returns_batch_mean [of toy None "''cpu''" toy_train toy_world "(3, 3 / 4)"
      toy_test toy_world "(4, 0)"]
    toy_train_step [of None] toy_test_step toy_train_pass [of None]
  by simp

subsection \<open>C5: the order of operations in \<open>train_step\<close>\<close>

text \<open>
  C5: what \<open>train_step\<close> does on every batch, in this order. The forward pass gives the
  logits from the parameters as they are before the update, and the loss is taken of
  these logits. The gradients are cleared and then filled by backpropagation. The
  optimizer makes one update with these gradients, which gives the new parameters. If a
  schedule was given it is advanced once, on the optimizer as the update left it;
  otherwise the scheduler is untouched. The accuracy is the number of labels equal to
  \<open>argmax(softmax(logits))\<close> divided by the batch size, and loss and accuracy are
  accumulated unless that division raised. The trace shows the calls in this order.
  For the pass: the world \<open>train_step\<close> leaves is the one obtained by doing this on the
  processed batches one after the other, on a pass that raises as well; an optimizer that
  counts its updates has counted one per processed batch; and a call that returns has
  processed all \<open>n\<close> batches, so its optimizer has been stepped exactly \<open>n\<close> times and its
  trace is \<open>n\<close> times \<open>train_events\<close>.
\<close>

theorem train_step_order:
  "fst (train_batch T sch dev b w) =
     (case argmax_dim1 (map (softmax T) (train_logits T b w)) of
        Inl e \<Rightarrow> Inl e
      | Inr y_pred \<Rightarrow>
          if b = [] then Inl ZeroDivisionError
          else Inr (loss_fn T (train_logits T b w) (map snd b),
                    real (eq_sum (map snd b) y_pred) / real (length b))) \<and>
   grads (snd (train_batch T sch dev b w)) = fresh_grads T b w \<and>
   params (snd (train_batch T sch dev b w)) = snd (update T b w) \<and>
   optimizer (snd (train_batch T sch dev b w)) =
     (case sch of
        None \<Rightarrow> fst (update T b w)
      | Some step \<Rightarrow> snd (step (scheduler w) (fst (update T b w)))) \<and>
   scheduler (snd (train_batch T sch dev b w)) =
     (case sch of
        None \<Rightarrow> scheduler w
      | Some step \<Rightarrow> fst (step (scheduler w) (fst (update T b w)))) \<and>
   training (snd (train_batch T sch dev b w)) = Training \<and>
   trace (snd (train_batch T sch dev b w)) =
     trace w @ [BatchTo dev, ModelTrain, Forward, LossFn, ZeroGrad, Backward, OptimizerStep]
       @ (case sch of None \<Rightarrow> [] | Some step \<Rightarrow> [SchedulerStep])
       @ [Accuracy]
       @ (case fst (train_batch T sch dev b w) of Inl e \<Rightarrow> [] | Inr la \<Rightarrow> [Accumulate]) \<and>
   snd (train_step T sch dev loader w0) =
     foldl (\<lambda>w b. snd (train_batch T sch dev b w))
       (emit (Iterate Trainloader) (model_to dev w0))
       (processed T sch dev loader (emit (Iterate Trainloader) (model_to dev w0))) \<and>
   ((\<forall>k g p. cnt (fst (opt_step T k g p)) = Suc (cnt k)) \<and>
    (\<forall>step s k. sch = Some step \<longrightarrow> cnt (snd (step s k)) = cnt k) \<longrightarrow>
      cnt (optimizer (snd (train_step T sch dev loader w0))) =
        cnt (optimizer w0)
        + length (processed T sch dev loader (emit (Iterate Trainloader) (model_to dev w0)))) \<and>
   (fst (train_step T sch dev loader w0) = Inr m \<longrightarrow>
      processed T sch dev loader (emit (Iterate Trainloader) (model_to dev w0)) = loader \<and>
      trace (snd (train_step T sch dev loader w0)) =
        trace w0 @ [ModelTo dev, Iterate Trainloader]
          @ concat (replicate (length loader) (train_events sch dev)))"
proof -
  let ?entry = "emit (Iterate Trainloader) (model_to dev w0)"
  let ?step = "\<lambda>w b. snd (train_batch T sch dev b w)"
  have pass: "snd (train_step T sch dev loader w0) =
      foldl ?step ?entry (processed T sch dev loader ?entry)"
    by (simp add: train_step_snd train_loop_world)
  have counter: "cnt (optimizer (snd (train_step T sch dev loader w0))) =
        cnt (optimizer w0) + length (processed T sch dev loader ?entry)"
    if "(\<forall>k g p. cnt (fst (opt_step T k g p)) = Suc (cnt k)) \<and>
        (\<forall>step s k. sch = Some step \<longrightarrow> cnt (snd (step s k)) = cnt k)"
    unfolding pass using that foldl_train_batch_counter [of cnt T sch dev ?entry] by simp
  have returned: "processed T sch dev loader ?entry = loader \<and>
      trace (snd (train_step T sch dev loader w0)) =
        trace w0 @ [ModelTo dev, Iterate Trainloader]
          @ concat (replicate (length loader) (train_events sch dev))"
    if r: "fst (train_step T sch dev loader w0) = Inr m"
  proof -
    from train_step_Inr [OF r] obtain v where
      "fst (train_loop T sch dev loader 0 0 ?entry) = Inr v"
      by blast
    from train_loop_processed_all [OF this] train_step_trace [OF r] show ?thesis
      by simp
  qed
  show ?thesis
    using pass counter returned
    by (simp only: train_batch_result train_batch_world train_batch_fields train_batch_trace)
      blast
qed

theorem train_step_order_witness:
  "fst (train_step toy (Some toy_hook) ''cpu'' toy_train toy_world) = Inr (3, 3 / 4) \<and>
   processed toy (Some toy_hook) ''cpu'' toy_train
     (emit (Iterate Trainloader) (model_to ''cpu'' toy_world)) = toy_train \<and>
   optimizer (snd (train_step toy (Some toy_hook) ''cpu'' toy_train toy_world)) = 2 \<and>
   params (snd (train_step toy (Some toy_hook) ''cpu'' toy_train toy_world)) = - 1 \<and>
   scheduler (snd (train_step toy (Some toy_hook) ''cpu'' toy_train toy_world)) = 2 \<and>
   trace (snd (train_step toy (Some toy_hook) ''cpu'' toy_train toy_world)) =
     [ModelTo ''cpu'', Iterate Trainloader,
      BatchTo ''cpu'', ModelTrain, Forward, LossFn, ZeroGrad, Backward, OptimizerStep,
      SchedulerStep, Accuracy, Accumulate,
      BatchTo ''cpu'', ModelTrain, Forward, LossFn, ZeroGrad, Backward, OptimizerStep,
      SchedulerStep, Accuracy, Accumulate]"
proof -
  have counts: "(\<forall>k g p. fst (opt_step toy k g p) = Suc k) \<and>
      (\<forall>step s k. Some toy_hook = Some step \<longrightarrow> snd (step s k) = k)"
    by (simp add: toy_def toy_hook_def)
  note order = train_step_order [where T = toy and sch = "Some toy_hook" and dev = "''cpu''"
      and loader = toy_train and ?w0.0 = toy_world and cnt = "\<lambda>k. k" and m = "(3, 3 / 4)"
      and b = "[]" and w = toy_world]
  have ret: "fst (train_step toy (Some toy_hook) ''cpu'' toy_train toy_world) = Inr (3, 3 / 4)"
    by (rule toy_train_step)
  have all: "processed toy (Some toy_hook) ''cpu'' toy_train
      (emit (Iterate Trainloader) (model_to ''cpu'' toy_world)) = toy_train"
    and tr: "trace (snd (train_step toy (Some toy_hook) ''cpu'' toy_train toy_world)) =
        trace toy_world @ [ModelTo ''cpu'', Iterate Trainloader]
          @ concat (replicate (length toy_train) (train_events (Some toy_hook) ''cpu''))"
    using order ret by blast+
  have "optimizer (snd (train_step toy (Some toy_hook) ''cpu'' toy_train toy_world)) =
      optimizer toy_world + length (processed toy (Some toy_hook) ''cpu'' toy_train
        (emit (Iterate Trainloader) (model_to ''cpu'' toy_world)))"
    using order counts by blast
  then have opt: "optimizer (snd (train_step toy (Some toy_hook) ''cpu'' toy_train toy_world)) = 2"
    unfolding all by (simp add: toy_world_def toy_train_def)
  have len: "length toy_train = Suc (Suc 0)"
    by (simp add: toy_train_def)
  have state: "params (snd (train_step toy (Some toy_hook) ''cpu'' toy_train toy_world)) = - 1"
    "scheduler (snd (train_step toy (Some toy_hook) ''cpu'' toy_train toy_world)) = 2"
    by (simp_all add: train_step_snd toy_eval)
  show ?thesis
    unfolding tr len using ret all opt state
    by (simp add: train_events_def toy_world_def)
qed

subsection \<open>C6: \<open>test_step\<close> changes nothing it evaluates\<close>

text \<open>
  C6: on every path, also one that ends in a raise, \<open>test_step\<close> leaves the parameters of
  the model, the stored gradients, the optimizer and the scheduler as they were; and
  running it again on the world it left gives the same outcome, value for value.
\<close>

theorem test_step_mutates_nothing:
  "params (snd (test_step T dev loader w)) = params w \<and>
   grads (snd (test_step T dev loader w)) = grads w \<and>
   optimizer (snd (test_step T dev loader w)) = optimizer w \<and>
   scheduler (snd (test_step T dev loader w)) = scheduler w \<and>
   fst (test_step T dev loader (snd (test_step T dev loader w))) =
     fst (test_step T dev loader w)"
  using test_step_frame [of T dev loader w]
    test_step_params_only [of "snd (test_step T dev loader w)" w T dev loader]
  by simp

subsection \<open>C7: no epochs\<close>

text \<open>
  C7: \<open>train\<close> with \<open>epochs = 0\<close> returns, without error, the record of four empty lists
  and leaves the world as it was: nothing was added to the trace, so neither loader was
  iterated and no line was printed.
\<close>

theorem train_zero_epochs:
  "train T trl tel sch 0 dev w =
     (Inr \<lparr>train_loss = [], train_acc = [], test_loss = [], test_acc = []\<rparr>, w) \<and>
   trace (snd (train T trl tel sch 0 dev w)) = trace w"
  by (simp add: train_def)

subsection \<open>C8: the range of the metrics\<close>

text \<open>
  C8: the mean accuracy returned by a completed call of \<open>train_step\<close> or \<open>test_step\<close> lies
  between 0 and 1, and the mean loss is not negative when the loss function never is.
\<close>

theorem step_metric_bounds:
  "(fst (train_step T sch dev loader w) = Inr m \<longrightarrow>
      0 \<le> snd m \<and> snd m \<le> 1 \<and> ((\<forall>lg y. 0 \<le> loss_fn T lg y) \<longrightarrow> 0 \<le> fst m)) \<and>
   (fst (test_step T dev loader' w') = Inr m' \<longrightarrow>
      0 \<le> snd m' \<and> snd m' \<le> 1 \<and> ((\<forall>lg y. 0 \<le> loss_fn T lg y) \<longrightarrow> 0 \<le> fst m'))"
  using train_step_bounds [of T sch dev loader w m] test_step_bounds [of T dev loader' w' m']
  by blast

theorem step_metric_bounds_witness:
  "fst (train_step toy None ''cpu'' toy_train toy_world) = Inr (3, 3 / 4) \<and>
   fst (test_step toy ''cpu'' toy_test toy_world) = Inr (4, 0) \<and>
   (0::real) \<le> snd (3::real, 3 / 4 :: real) \<and> snd (3::real, 3 / 4 :: real) \<le> 1 \<and>
   (0::real) \<le> fst (3::real, 3 / 4 :: real) \<and>
   (0::real) \<le> snd (4::real, 0::real) \<and> snd (4::real, 0::real) \<le> 1 \<and>
   (0::real) \<le> fst (4::real, 0::real)"
proof -
  have nonneg: "\<forall>lg y. 0 \<le> loss_fn toy lg y"
    by (simp add: toy_def)
  from step_metric_bounds [of toy None "''cpu''" toy_train toy_world "(3, 3 / 4)"
      toy_test toy_world "(4, 0)"]
    toy_train_step [of None] toy_test_step nonneg
  show ?thesis by simp
qed

subsection \<open>C9: softmax and the prediction\<close>

text \<open>
  C9 says that for every batch of logits \<open>argmax(softmax(logits, dim=1), dim=1)\<close> is
  \<open>argmax(logits, dim=1)\<close>. The softmax the code calls is rounded. In single precision
  the row \<open>[0, 2^-30]\<close> has the softmax \<open>[1/2, 1/2]\<close>: the larger logit is second, the
  first maximal softmax value is first. So the prediction is class 0 where the logits say
  class 1, and \<open>test_step\<close> on the one sample \<open>2^-30\<close> with label 1 returns the accuracy 0.
\<close>

theorem softmax32_changes_prediction:
  "softmax32 [0, 1 / 2 ^ 30] = [1 / 2, 1 / 2] \<and>
   predict (toy\<lparr>softmax := softmax32\<rparr>) [[0, 1 / 2 ^ 30]] = Inr [0] \<and>
   argmax_dim1 [[0, 1 / 2 ^ 30]] = Inr [1] \<and>
   fst (test_step (toy\<lparr>softmax := softmax32\<rparr>) ''cpu'' [[(1 / 2 ^ 30, 1)]] toy_world)
     = Inr (2, 0)"
proof -
  have row: "softmax32 [0, 1 / 1073741824] = [1 / 2, 1 / 2]"
    using softmax32_tie by simp
  show ?thesis
    by (simp add: row predict_def test_step_def test_batch_fst batch_acc_def eq_sum_def
        truediv_def average_def Let_def toy_def toy_world_def)
qed

text \<open>
  C9 as amended: for every batch of logits on whose rows the softmax, as computed, keeps
  the strict order of the entries, \<open>argmax(softmax(logits, dim=1), dim=1)\<close> is
  \<open>argmax(logits, dim=1)\<close>, ties and raises included, and the accuracy of the batch is the
  one computed without softmax. The exact softmax keeps the order on every row.
\<close>

theorem predict_order_preserving_softmax:
  "same_order (exact_softmax r) r \<and>
   ((\<forall>r \<in> set y_logits. same_order (softmax T r) r) \<longrightarrow>
      predict T y_logits = argmax_dim1 y_logits \<and>
      batch_acc T y_logits y =
        (case argmax_dim1 y_logits of
           Inl e \<Rightarrow> Inl e
         | Inr y_pred \<Rightarrow> truediv (real (eq_sum y y_pred)) (length y)))"
proof (intro conjI impI)
  show "same_order (exact_softmax r) r"
    by (rule exact_softmax_same_order)
next
  assume ord: "\<forall>r \<in> set y_logits. same_order (softmax T r) r"
  then show p: "predict T y_logits = argmax_dim1 y_logits"
    unfolding predict_def by (intro argmax_dim1_same_order) simp
  show "batch_acc T y_logits y =
        (case argmax_dim1 y_logits of
           Inl e \<Rightarrow> Inl e
         | Inr y_pred \<Rightarrow> truediv (real (eq_sum y y_pred)) (length y))"
    by (simp add: batch_acc_def p)
qed

theorem predict_order_preserving_softmax_witness:
  "predict toy [[0, 1], [2, 1]] = Inr [1, 0] \<and>
   batch_acc toy [[0, 1], [2, 1]] [1, 1] = Inr (1 / 2)"
proof -
  have ord: "\<forall>r \<in> set [[0, 1], [2, 1 :: real]]. same_order (softmax toy r) r"
    by (simp add: toy_def exact_softmax_same_order)
  from predict_order_preserving_softmax [of _ "[[0, 1], [2, 1]]" toy "[1, 1]"] ord
  show ?thesis
    by (simp add: eq_sum_def truediv_def)
qed

subsection \<open>C10: a batch without labels\<close>

text \<open>
  C10: on a batch of size 0 the accuracy computation of \<open>train_step\<close> and \<open>test_step\<close>
  divides by \<open>len(y) = 0\<close> and raises \<open>ZeroDivisionError\<close>; a loader that contains such a
  batch makes both functions raise rather than return.
\<close>

theorem empty_batch_raises:
  "fst (train_batch T sch dev [] w) = Inl ZeroDivisionError \<and>
   fst (test_batch T dev [] w) = Inl ZeroDivisionError \<and>
   ([] \<in> set loader \<longrightarrow>
      (\<exists>e. fst (train_step T sch dev loader w) = Inl e) \<and>
      (\<exists>e. fst (test_step T dev loader w) = Inl e))"
  using train_loop_empty_batch [of loader T sch dev 0 0
      "emit (Iterate Trainloader) (model_to dev w)"]
    test_loop_empty_batch [of loader T dev 0 0 "emit (Iterate Testloader) (model_to dev w)"]
  by (auto simp: train_batch_Nil test_batch_Nil
      dest: train_step_loop_error test_step_loop_error)

theorem empty_batch_raises_witness:
  "[] \<in> set [[(1::real, 1::int)], []] \<and>
   fst (train_step toy None ''cpu'' [[(1, 1)], []] toy_world) = Inl ZeroDivisionError \<and>
   fst (test_step toy ''cpu'' [[(1, 1)], []] toy_world) = Inl ZeroDivisionError"
  using empty_batch_raises [of toy None "''cpu''" toy_world "[[(1, 1)], []]"]
  by (simp add: toy_eval)

end
